theory Spec2Isabelle
  imports Main
begin

section \<open>Values and representations\<close>

text \<open>
  The module \<^verbatim>\<open>keycloak_realm.py\<close> works on JSON-like Python values: the module
  parameters and the realm representations the server returns. A representation is a
  Python dict with string keys; it is modelled as a map, so that equality of two
  representations does not depend on the order of insertion, as for Python dicts.
\<close>

datatype pyval =
    PNone
  | PBool bool
  | PInt int
  | PStr string
  | PList "pyval list"
  | PDict "string \<Rightarrow> pyval option"

type_synonym rep = "string \<Rightarrow> pyval option"

text \<open>
  Python's \<^verbatim>\<open>==\<close> on these values is structural, except that \<^verbatim>\<open>bool\<close> is a
  subclass of \<^verbatim>\<open>int\<close>: \<^verbatim>\<open>True == 1\<close> and \<^verbatim>\<open>False == 0\<close>, also inside lists and
  dicts. \<open>py_norm\<close> maps every boolean to its integer; two values are \<^verbatim>\<open>==\<close> when their
  normal forms are the same value.
\<close>

primrec py_norm :: "pyval \<Rightarrow> pyval" where
  "py_norm PNone = PNone"
| "py_norm (PBool b) = PInt (if b then 1 else 0)"
| "py_norm (PInt i) = PInt i"
| "py_norm (PStr s) = PStr s"
| "py_norm (PList xs) = PList (map py_norm xs)"
| "py_norm (PDict d) = PDict (map_option py_norm \<circ> d)"

definition py_eq :: "pyval \<Rightarrow> pyval \<Rightarrow> bool" where
  "py_eq a b = (py_norm a = py_norm b)"

definition dict_eq :: "rep \<Rightarrow> rep \<Rightarrow> bool" where
  \<comment> \<open>\<^verbatim>\<open>d1 == d2\<close> for two dicts\<close>
  "dict_eq d1 d2 = py_eq (PDict d1) (PDict d2)"

definition dict_eq_opt :: "rep \<Rightarrow> rep option \<Rightarrow> bool" where
  \<comment> \<open>\<^verbatim>\<open>d1 == x\<close> where \<^verbatim>\<open>x\<close> is a dict or \<^verbatim>\<open>None\<close>: a dict never equals \<^verbatim>\<open>None\<close>\<close>
  "dict_eq_opt d1 x = (case x of None \<Rightarrow> False | Some d2 \<Rightarrow> dict_eq d1 d2)"

datatype exc = KeyError string | TypeError | AttributeError

section \<open>The sanitizer\<close>

fun str_contains :: "string \<Rightarrow> string \<Rightarrow> bool" where
  \<comment> \<open>\<^verbatim>\<open>needle in haystack\<close> for two strings: a substring test\<close>
  "str_contains [] needle = (needle = [])"
| "str_contains (c # cs) needle =
     (take (length needle) (c # cs) = needle \<or> str_contains cs needle)"

definition py_in :: "string \<Rightarrow> pyval \<Rightarrow> exc + bool" where
  \<comment> \<open>\<^verbatim>\<open>key in container\<close>: key membership in a dict, element membership in a list,
      substring test in a string, \<^verbatim>\<open>TypeError\<close> for a value that is not iterable\<close>
  "py_in k container =
     (case container of
        PDict d \<Rightarrow> Inr (k \<in> dom d)
      | PList xs \<Rightarrow> Inr (PStr k \<in> set xs)
      | PStr s \<Rightarrow> Inr (str_contains s k)
      | _ \<Rightarrow> Inl TypeError)"

definition redacted :: pyval where
  "redacted = PStr ''********''"

definition private_key :: string where
  "private_key = ''saml.signing.private.key''"

text \<open>
  \<^verbatim>\<open>sanitize_cr\<close>, lines 578 to 591. The parameter is copied, so the argument is the
  value it was; the nested dict under \<^verbatim>\<open>'attributes'\<close> is copied before the private key
  is overwritten. When \<^verbatim>\<open>result['attributes']\<close> is not a dict the source (run by Python 3)
  raises: a list that has the key as an element is copied and then refuses a string
  index, a string that has the key as a substring has no \<^verbatim>\<open>copy\<close>, any other value is
  not iterable.
\<close>

definition sanitize_cr :: "rep \<Rightarrow> exc + rep" where
  "sanitize_cr realmrep =
     (let result = realmrep;
          result = (if ''secret'' \<in> dom result
                    then result(''secret'' \<mapsto> redacted) else result)
      in case result ''attributes'' of
           None \<Rightarrow> Inr result
         | Some attributes \<Rightarrow>
             (case py_in private_key attributes of
                Inl x \<Rightarrow> Inl x
              | Inr found \<Rightarrow>
                  if found then
                    (case attributes of
                       PDict a \<Rightarrow>
                         Inr (result(''attributes'' \<mapsto> PDict (a(private_key \<mapsto> redacted))))
                     | PList xs \<Rightarrow> Inl TypeError
                     | _ \<Rightarrow> Inl AttributeError)
                  else Inr result))"

definition sanitize_cr_opt :: "rep option \<Rightarrow> exc + rep" where
  \<comment> \<open>\<^verbatim>\<open>sanitize_cr(after_realm)\<close> where \<^verbatim>\<open>after_realm\<close> is what \<^verbatim>\<open>get_realm_by_id\<close>
      returned: \<^verbatim>\<open>None\<close> has no \<^verbatim>\<open>copy\<close>\<close>
  "sanitize_cr_opt x = (case x of None \<Rightarrow> Inl AttributeError | Some r \<Rightarrow> sanitize_cr r)"

section \<open>The module and its collaborators\<close>

text \<open>
  \<^verbatim>\<open>module.params\<close> is a dict that holds every argument of the argument spec, with
  \<^verbatim>\<open>None\<close> for an argument the caller did not give; the loop of line 708 runs over its
  keys in order, so it is an association list here. \<^verbatim>\<open>AnsibleModule\<close> checks the
  requirements of lines 687 to 689 before it fills in \<^verbatim>\<open>None\<close> for the arguments that are
  missing, so the module also keeps the names that were in the dict at that moment
  (\<open>given\<close>): the arguments of the task, one given as \<^verbatim>\<open>null\<close> among them, and the
  arguments whose default is not \<^verbatim>\<open>None\<close>.
\<close>

type_synonym params = "(string \<times> pyval) list"

definition params_get :: "params \<Rightarrow> string \<Rightarrow> pyval" where
  \<comment> \<open>\<^verbatim>\<open>module.params.get(x)\<close>\<close>
  "params_get ps x = (case map_of ps x of None \<Rightarrow> PNone | Some v \<Rightarrow> v)"

record ansible_module =
  given :: "string list"
  params :: params
  check_mode :: bool
  module_diff :: bool

datatype message = Text string | Format string pyval

record module_result =
  changed :: bool
  msg :: message
  diff :: rep
  proposed :: rep
  existing :: rep
  end_state :: rep

text \<open>
  The API client \<^verbatim>\<open>KeycloakAPI\<close>, the function \<^verbatim>\<open>get_token\<close>, the name transform
  \<^verbatim>\<open>camel\<close> and \<^verbatim>\<open>keycloak_argument_spec\<close> are imported from \<^verbatim>\<open>module_utils\<close> and are
  parameters of the model. \<open>'r\<close> is the state of the remote server. Each call of the
  client either returns or ends the run through \<^verbatim>\<open>fail_json\<close> (\<open>Inl\<close> the message);
  \<^verbatim>\<open>get_realm_by_id\<close> returns \<^verbatim>\<open>None\<close> for a realm that is not there.
\<close>

record 'r keycloak_api =
  get_realm_by_id :: "pyval \<Rightarrow> 'r \<Rightarrow> string + rep option"
  create_realm :: "rep \<Rightarrow> 'r \<Rightarrow> string + 'r"
  update_realm :: "rep \<Rightarrow> pyval \<Rightarrow> 'r \<Rightarrow> string + 'r"
  delete_realm :: "pyval \<Rightarrow> 'r \<Rightarrow> string + 'r"

record ('h, 'r) env =
  keycloak_argument_spec_keys :: "string list"
  camel :: "string \<Rightarrow> string"
  get_token :: "params \<Rightarrow> string + 'h"
  KeycloakAPI :: "'h \<Rightarrow> 'r keycloak_api"

datatype call =
    GetRealm pyval
  | CreateRealm rep
  | UpdateRealm rep pyval
  | DeleteRealm pyval

fun mutating :: "call \<Rightarrow> bool" where
  "mutating (GetRealm _) = False"
| "mutating (CreateRealm _) = True"
| "mutating (UpdateRealm _ _) = True"
| "mutating (DeleteRealm _) = True"

text \<open>
  A run ends through \<^verbatim>\<open>exit_json\<close>, through \<^verbatim>\<open>fail_json\<close> or with an exception
  that nothing catches. The outcome keeps the dict \<^verbatim>\<open>result\<close> as it was at that moment
  (only \<open>Exit\<close> reports it to the caller), the calls made on the client, in order, and
  the state of the server.
\<close>

datatype status = Exit | Fail string | Raise exc

record 'r outcome =
  status :: status
  result :: module_result
  calls :: "call list"
  remote :: 'r

definition stop :: "status \<Rightarrow> module_result \<Rightarrow> call list \<Rightarrow> 'r \<Rightarrow> 'r outcome" where
  "stop s res cs r = \<lparr>status = s, result = res, calls = cs, remote = r\<rparr>"

definition reported :: "'r outcome \<Rightarrow> module_result option" where
  \<comment> \<open>what the caller receives: the result of a run that ended through \<^verbatim>\<open>exit_json\<close>\<close>
  "reported out = (if status out = Exit then Some (result out) else None)"

section \<open>Argument requirements\<close>

text \<open>
  Lines 685 to 689 hand \<^verbatim>\<open>required_one_of\<close> and \<^verbatim>\<open>required_together\<close> to
  \<^verbatim>\<open>AnsibleModule\<close>, which ends the run through \<^verbatim>\<open>fail_json\<close> when a group of
  \<^verbatim>\<open>required_one_of\<close> has no argument given, or a group of \<^verbatim>\<open>required_together\<close> has
  some but not all of its arguments given. The library counts the names of a group that are
  keys of the dict of parameters; the value under a key plays no part, so that an argument
  given as \<^verbatim>\<open>null\<close> counts as given. The types, choices and aliases of single
  arguments are checked there too and are not modelled: a theorem that needs a
  well-typed argument says so.
\<close>

definition supplied :: "string list \<Rightarrow> string \<Rightarrow> bool" where
  \<comment> \<open>the name is a key of the parameters when the requirements are checked\<close>
  "supplied ks k = (k \<in> set ks)"

definition required_one_of :: "string list list" where
  "required_one_of =
     [[''id'', ''realm'', ''enabled''],
      [''token'', ''auth_realm'', ''auth_username'', ''auth_password'']]"

definition required_together :: "string list list" where
  "required_together = [[''auth_realm'', ''auth_username'', ''auth_password'']]"

definition check_required_one_of :: "string list list \<Rightarrow> string list \<Rightarrow> bool" where
  "check_required_one_of terms ks = list_all (\<lambda>term. list_ex (supplied ks) term) terms"

definition check_required_together :: "string list list \<Rightarrow> string list \<Rightarrow> bool" where
  "check_required_together terms ks =
     list_all (\<lambda>term. list_ex (supplied ks) term \<longrightarrow> list_all (supplied ks) term) terms"

definition requirements_met :: "string list \<Rightarrow> bool" where
  "requirements_met ks =
     (check_required_one_of required_one_of ks \<and>
      check_required_together required_together ks)"

section \<open>The changeset and the desired realm\<close>

definition realm_params :: "string list \<Rightarrow> params \<Rightarrow> string list" where
  \<comment> \<open>lines 708 to 710\<close>
  "realm_params params_to_ignore ps =
     filter (\<lambda>x. x \<notin> set params_to_ignore \<and> params_get ps x \<noteq> PNone) (map fst ps)"

definition build_changeset :: "(string \<Rightarrow> string) \<Rightarrow> params \<Rightarrow> string list \<Rightarrow> rep" where
  \<comment> \<open>lines 719 to 723: the loop assigns in order, so a later parameter overwrites an
      earlier one with the same \<^verbatim>\<open>camel\<close> name\<close>
  "build_changeset cml ps rps = fold (\<lambda>realm_param cs. cs(cml realm_param \<mapsto> params_get ps realm_param)) rps Map.empty"

definition changeset_of :: "('h, 'r) env \<Rightarrow> params \<Rightarrow> rep" where
  "changeset_of e ps =
     build_changeset (camel e) ps
       (realm_params (keycloak_argument_spec_keys e @ [''state'']) ps)"

definition desired_realm :: "rep \<Rightarrow> rep \<Rightarrow> rep" where
  \<comment> \<open>lines 726 and 727: \<^verbatim>\<open>before_realm.copy()\<close>, then \<^verbatim>\<open>update(changeset)\<close>\<close>
  "desired_realm before_realm changeset = before_realm ++ changeset"

section \<open>The reconciler\<close>

definition before_after :: "pyval \<Rightarrow> pyval \<Rightarrow> rep" where
  \<comment> \<open>\<^verbatim>\<open>dict(before=b, after=a)\<close>\<close>
  "before_after b a = [''before'' \<mapsto> b, ''after'' \<mapsto> a]"

text \<open>Lines 734 to 763: the realm does not exist.\<close>

definition absent_path ::
  "'r keycloak_api \<Rightarrow> ansible_module \<Rightarrow> pyval \<Rightarrow> rep \<Rightarrow> module_result \<Rightarrow> call list \<Rightarrow> 'r
     \<Rightarrow> 'r outcome" where
  "absent_path kc m state desired res cs r0 =
     (if state = PStr ''absent'' then
        let res = (if module_diff m
                   then res\<lparr>diff := before_after (PStr '''') (PStr '''')\<rparr> else res);
            res = res\<lparr>changed := False\<rparr>;
            res = res\<lparr>end_state := Map.empty\<rparr>;
            res = res\<lparr>msg := Text ''Realm does not exist, doing nothing.''\<rparr>
        in stop Exit res cs r0
      else
        let res = res\<lparr>changed := True\<rparr> in
        case desired ''id'' of
          None \<Rightarrow>
            stop (Fail ''id needs to be specified when creating a new realm'') res cs r0
        | Some realm_id \<Rightarrow>
            (case (if module_diff m
                   then (case sanitize_cr desired of
                           Inl x \<Rightarrow> Inl x
                         | Inr s \<Rightarrow> Inr (res\<lparr>diff := before_after (PStr '''') (PDict s)\<rparr>))
                   else Inr res) of
               Inl x \<Rightarrow> stop (Raise x) res cs r0
             | Inr res \<Rightarrow>
                 if check_mode m then stop Exit res cs r0
                 else
                   (case create_realm kc desired r0 of
                      Inl e \<Rightarrow> stop (Fail e) res (cs @ [CreateRealm desired]) r0
                    | Inr r1 \<Rightarrow>
                        let cs = cs @ [CreateRealm desired, GetRealm realm_id] in
                        (case get_realm_by_id kc realm_id r1 of
                           Inl e \<Rightarrow> stop (Fail e) res cs r1
                         | Inr after_realm \<Rightarrow>
                             (case sanitize_cr_opt after_realm of
                                Inl x \<Rightarrow> stop (Raise x) res cs r1
                              | Inr s \<Rightarrow>
                                  let res = res\<lparr>end_state := s\<rparr>;
                                      res = res\<lparr>msg := Format ''Realm %s has been created.'' realm_id\<rparr>
                                  in stop Exit res cs r1)))))"

text \<open>Lines 766 to 795: the realm exists and \<^verbatim>\<open>state\<close> is \<^verbatim>\<open>'present'\<close>.\<close>

definition update_path ::
  "'r keycloak_api \<Rightarrow> ansible_module \<Rightarrow> pyval \<Rightarrow> rep \<Rightarrow> rep \<Rightarrow> rep \<Rightarrow> module_result
     \<Rightarrow> call list \<Rightarrow> 'r \<Rightarrow> 'r outcome" where
  "update_path kc m realm before_realm before_realm_sanitized desired res cs r0 =
     (let res = res\<lparr>changed := True\<rparr> in
      if check_mode m then
        (case (if module_diff m
               then (case sanitize_cr desired of
                       Inl x \<Rightarrow> Inl x
                     | Inr s \<Rightarrow>
                         Inr (res\<lparr>diff := before_after (PDict before_realm_sanitized) (PDict s)\<rparr>))
               else Inr res) of
           Inl x \<Rightarrow> stop (Raise x) res cs r0
         | Inr res \<Rightarrow>
             stop Exit (res\<lparr>changed := \<not> dict_eq before_realm desired\<rparr>) cs r0)
      else
        (case update_realm kc desired realm r0 of
           Inl e \<Rightarrow> stop (Fail e) res (cs @ [UpdateRealm desired realm]) r0
         | Inr r1 \<Rightarrow>
             let cs = cs @ [UpdateRealm desired realm, GetRealm realm] in
             (case get_realm_by_id kc realm r1 of
                Inl e \<Rightarrow> stop (Fail e) res cs r1
              | Inr after_realm \<Rightarrow>
                  let res = (if dict_eq_opt before_realm after_realm
                             then res\<lparr>changed := False\<rparr> else res) in
                  (case sanitize_cr_opt after_realm of
                     Inl x \<Rightarrow> stop (Raise x) res cs r1
                   | Inr s \<Rightarrow>
                       let res = res\<lparr>end_state := s\<rparr>;
                           res = (if module_diff m
                                  then res\<lparr>diff := before_after (PDict before_realm_sanitized) (PDict s)\<rparr>
                                  else res)
                       in (case desired ''id'' of
                             None \<Rightarrow> stop (Raise (KeyError ''id'')) res cs r1
                           | Some realm_id \<Rightarrow>
                               stop Exit
                                 (res\<lparr>msg := Format ''Realm %s has been updated.'' realm_id\<rparr>)
                                 cs r1)))))"

text \<open>Lines 797 to 815: the realm exists and \<^verbatim>\<open>state\<close> is not \<^verbatim>\<open>'present'\<close>.\<close>

definition delete_path ::
  "'r keycloak_api \<Rightarrow> ansible_module \<Rightarrow> pyval \<Rightarrow> rep \<Rightarrow> rep \<Rightarrow> module_result
     \<Rightarrow> call list \<Rightarrow> 'r \<Rightarrow> 'r outcome" where
  "delete_path kc m realm before_realm before_realm_sanitized res cs r0 =
     (let res = res\<lparr>changed := True\<rparr>;
          res = (if module_diff m
                 then res\<lparr>diff := before_after (PDict before_realm_sanitized) (PStr '''')\<rparr>
                 else res)
      in if check_mode m then stop Exit res cs r0
         else
           (case delete_realm kc realm r0 of
              Inl e \<Rightarrow> stop (Fail e) res (cs @ [DeleteRealm realm]) r0
            | Inr r1 \<Rightarrow>
                let cs = cs @ [DeleteRealm realm];
                    res = res\<lparr>proposed := Map.empty\<rparr>;
                    res = res\<lparr>end_state := Map.empty\<rparr>
                in (case before_realm ''id'' of
                      None \<Rightarrow> stop (Raise (KeyError ''id'')) res cs r1
                    | Some realm_id \<Rightarrow>
                        stop Exit
                          (res\<lparr>msg := Format ''Realm %s has been deleted.'' realm_id\<rparr>)
                          cs r1)))"

definition before_realm_of :: "rep option \<Rightarrow> rep" where
  \<comment> \<open>lines 713 to 716: \<^verbatim>\<open>None\<close> becomes the empty dict\<close>
  "before_realm_of fetched = (case fetched of None \<Rightarrow> Map.empty | Some b \<Rightarrow> b)"

definition initial_result :: module_result where
  \<comment> \<open>line 691\<close>
  "initial_result =
     \<lparr>changed = False, msg = Text '''', diff = Map.empty, proposed = Map.empty,
      existing = Map.empty, end_state = Map.empty\<rparr>"

text \<open>
  \<^verbatim>\<open>main\<close>, lines 594 to 815. After the first fetch the run takes one of the three
  paths above. When the arguments fail the requirements, \<^verbatim>\<open>AnsibleModule\<close> ends the run
  with a message of its own, for which \<open>''missing required arguments''\<close> stands here.
\<close>

definition reconcile ::
  "('h, 'r) env \<Rightarrow> 'r keycloak_api \<Rightarrow> ansible_module \<Rightarrow> rep option \<Rightarrow> call list \<Rightarrow> 'r
     \<Rightarrow> 'r outcome" where
  "reconcile e kc m fetched cs r0 =
     (let realm = params_get (params m) ''realm'';
          state = params_get (params m) ''state'';
          before_realm = before_realm_of fetched;
          changeset = changeset_of e (params m);
          desired = desired_realm before_realm changeset;
          res = initial_result
      in case sanitize_cr changeset of
           Inl x \<Rightarrow> stop (Raise x) res cs r0
         | Inr p \<Rightarrow>
             let res = res\<lparr>proposed := p\<rparr> in
             (case sanitize_cr before_realm of
                Inl x \<Rightarrow> stop (Raise x) res cs r0
              | Inr before_realm_sanitized \<Rightarrow>
                  let res = res\<lparr>existing := before_realm_sanitized\<rparr> in
                  if before_realm = Map.empty then
                    absent_path kc m state desired res cs r0
                  else if state = PStr ''present'' then
                    update_path kc m realm before_realm before_realm_sanitized desired res cs r0
                  else
                    delete_path kc m realm before_realm before_realm_sanitized res cs r0))"

definition main :: "('h, 'r) env \<Rightarrow> ansible_module \<Rightarrow> 'r \<Rightarrow> 'r outcome" where
  "main e m r0 =
     (if \<not> requirements_met (given m) then
        stop (Fail ''missing required arguments'') initial_result [] r0
      else
        case get_token e (params m) of
          Inl err \<Rightarrow> stop (Fail err) initial_result [] r0
        | Inr connection_header \<Rightarrow>
            let kc = KeycloakAPI e connection_header;
                realm = params_get (params m) ''realm''
            in (case get_realm_by_id kc realm r0 of
                  Inl err \<Rightarrow> stop (Fail err) initial_result [GetRealm realm] r0
                | Inr fetched \<Rightarrow> reconcile e kc m fetched [GetRealm realm] r0))"

text \<open>
  \<open>starts e m r0 h fetched\<close>: the run passes the argument requirements, gets the
  connection header \<open>h\<close>, and its first fetch returns \<open>fetched\<close>. From there on
  \<^verbatim>\<open>main\<close> is \<open>reconcile\<close>.
\<close>

definition starts ::
  "('h, 'r) env \<Rightarrow> ansible_module \<Rightarrow> 'r \<Rightarrow> 'h \<Rightarrow> rep option \<Rightarrow> bool" where
  "starts e m r0 h fetched =
     (requirements_met (given m) \<and> get_token e (params m) = Inr h \<and>
      get_realm_by_id (KeycloakAPI e h) (params_get (params m) ''realm'') r0 = Inr fetched)"

section \<open>Well-typed representations, persisted writes and an example environment\<close>

definition attributes_typed :: "rep \<Rightarrow> bool" where
  \<comment> \<open>the entry \<^verbatim>\<open>'attributes'\<close>, when there is one, is a dict: the argument spec gives the
      parameter the type \<^verbatim>\<open>dict\<close>, and the server sends a JSON object\<close>
  "attributes_typed r =
     (case r ''attributes'' of None \<Rightarrow> True | Some (PDict a) \<Rightarrow> True | Some _ \<Rightarrow> False)"

definition is_sanitized :: "rep \<Rightarrow> bool" where
  \<comment> \<open>no secret and no private key stands unredacted in the representation\<close>
  "is_sanitized r =
     ((case r ''secret'' of None \<Rightarrow> True | Some v \<Rightarrow> v = redacted) \<and>
      (case r ''attributes'' of
         Some (PDict a) \<Rightarrow> (case a private_key of None \<Rightarrow> True | Some v \<Rightarrow> v = redacted)
       | _ \<Rightarrow> True))"

definition side_sanitized :: "pyval option \<Rightarrow> bool" where
  \<comment> \<open>one side of \<^verbatim>\<open>result['diff']\<close>: a representation there is sanitized\<close>
  "side_sanitized x = (case x of Some (PDict d) \<Rightarrow> is_sanitized d | _ \<Rightarrow> True)"

text \<open>
  The spec's "remote system that faithfully persists writes", asked of one call on the
  server in the state \<open>r\<close>: the server accepts the call, and the fetch that \<^verbatim>\<open>main\<close>
  makes after a create (line 758, by the \<^verbatim>\<open>'id'\<close> of what was sent) or after an update
  (line 783, by the name of the realm) returns what was sent. \<^verbatim>\<open>main\<close> fetches nothing
  after a delete. Nothing is asked of the server for a call that is not made, or from
  another state: a server may refuse to create a realm that is there, or to update one
  that is not.
\<close>

fun persists :: "'r keycloak_api \<Rightarrow> 'r \<Rightarrow> call \<Rightarrow> bool" where
  "persists kc r (GetRealm name) = True"
| "persists kc r (CreateRealm d) =
     (case create_realm kc d r of
        Inl err \<Rightarrow> False
      | Inr r' \<Rightarrow>
          (case d ''id'' of
             None \<Rightarrow> True
           | Some v \<Rightarrow> get_realm_by_id kc v r' = Inr (Some d)))"
| "persists kc r (UpdateRealm d name) =
     (case update_realm kc d name r of
        Inl err \<Rightarrow> False
      | Inr r' \<Rightarrow> get_realm_by_id kc name r' = Inr (Some d))"
| "persists kc r (DeleteRealm name) =
     (case delete_realm kc name r of Inl err \<Rightarrow> False | Inr r' \<Rightarrow> True)"

text \<open>
  Modelled from the spec: \<^verbatim>\<open>camel\<close> of \<^verbatim>\<open>module_utils\<close>, which is not among the source
  files. The spec calls it a name transform from underscore-separated to camel-case: an
  underscore is dropped and the letter after it is written in upper case. The theorems
  hold for every \<open>camel\<close>; this one serves in the examples.
\<close>

definition upper :: "char \<Rightarrow> char" where
  "upper c =
     (let n = (of_char c :: nat) in
      if 97 \<le> n \<and> n \<le> 122
      then (case c of Char b0 b1 b2 b3 b4 b5 b6 b7 \<Rightarrow> Char b0 b1 b2 b3 b4 False b6 b7)
      else c)"

fun camel_from :: "bool \<Rightarrow> string \<Rightarrow> string" where
  "camel_from up [] = []"
| "camel_from up (c # cs) =
     (if c = CHR ''_'' then camel_from True cs
      else (if up then upper c else c) # camel_from False cs)"

text \<open>
  A server for the examples. It holds at most one realm, whatever its name: a fetch
  returns it, a create or an update replaces it, a delete removes it.
\<close>

definition one_realm_server :: "(rep option) keycloak_api" where
  "one_realm_server =
     \<lparr>get_realm_by_id = (\<lambda>name r. Inr r),
      create_realm = (\<lambda>d r. Inr (Some d)),
      update_realm = (\<lambda>d name r. Inr (Some d)),
      delete_realm = (\<lambda>name r. Inr None)\<rparr>"

definition example_env :: "(unit, rep option) env" where
  "example_env =
     \<lparr>keycloak_argument_spec_keys =
        [''auth_keycloak_url'', ''auth_client_id'', ''auth_realm'', ''auth_username'',
         ''auth_password'', ''token''],
      camel = camel_from False,
      get_token = (\<lambda>ps. Inr ()),
      KeycloakAPI = (\<lambda>h. one_realm_server)\<rparr>"

definition example_params :: "pyval \<Rightarrow> params" where
  \<comment> \<open>a task that names the realm \<^verbatim>\<open>demo\<close>, gives it a display name and asks for \<open>state\<close>\<close>
  "example_params state =
     [(''token'', PStr ''t0''), (''auth_realm'', PNone), (''state'', state),
      (''id'', PNone), (''realm'', PStr ''demo''), (''display_name'', PStr ''Demo''),
      (''enabled'', PNone)]"

definition example_realm :: "string \<Rightarrow> rep" where
  \<comment> \<open>the realm \<^verbatim>\<open>demo\<close> as the server holds it, with the display name given\<close>
  "example_realm display_name =
     [''id'' \<mapsto> PStr ''demo'', ''realm'' \<mapsto> PStr ''demo'',
      ''displayName'' \<mapsto> PStr display_name]"

definition example_module :: "pyval \<Rightarrow> bool \<Rightarrow> ansible_module" where
  "example_module state check =
     \<lparr>given = [''token'', ''state'', ''realm'', ''display_name''],
      params = example_params state, check_mode = check, module_diff = False\<rparr>"

text \<open>
  Two more tasks for the examples. The first gives \<^verbatim>\<open>enabled\<close> and neither \<^verbatim>\<open>id\<close> nor
  \<^verbatim>\<open>realm\<close>. The second gives \<^verbatim>\<open>id: null\<close> and no other argument of the realm, and
  asks for \<open>state\<close>.
\<close>

definition enabled_only_module :: "bool \<Rightarrow> ansible_module" where
  "enabled_only_module check =
     \<lparr>given = [''token'', ''state'', ''enabled''],
      params = [(''token'', PStr ''t0''), (''auth_realm'', PNone), (''state'', PStr ''present''),
                (''id'', PNone), (''realm'', PNone), (''display_name'', PNone),
                (''enabled'', PBool True)],
      check_mode = check, module_diff = False\<rparr>"

definition null_id_module :: "pyval \<Rightarrow> bool \<Rightarrow> ansible_module" where
  "null_id_module state check =
     \<lparr>given = [''token'', ''state'', ''id''],
      params = [(''token'', PStr ''t0''), (''auth_realm'', PNone), (''state'', state),
                (''id'', PNone), (''realm'', PNone), (''display_name'', PNone),
                (''enabled'', PNone)],
      check_mode = check, module_diff = False\<rparr>"

section \<open>The sanitizer on a store of objects\<close>

text \<open>
  Python dicts and lists are objects that many names can share, and \<^verbatim>\<open>sanitize_cr\<close>
  assigns into dicts. Whether its argument is left as it was depends on which dict each
  assignment reaches, so here the function is modelled a second time, on a store of
  objects: an address is an index into the store, a new object goes to the end of it, and
  a dict or list holds numbers, strings and the addresses of other objects.
\<close>

datatype hval = HNone | HBool bool | HInt int | HStr string | HRef nat

datatype hobj = HDict "string \<Rightarrow> hval option" | HList "hval list"

type_synonym heap = "hobj list"

definition obj_at :: "heap \<Rightarrow> nat \<Rightarrow> hobj option" where
  "obj_at h a = (if a < length h then Some (h ! a) else None)"

definition alloc :: "hobj \<Rightarrow> heap \<Rightarrow> nat \<times> heap" where
  \<comment> \<open>a new object, as \<^verbatim>\<open>copy()\<close> makes one\<close>
  "alloc ob h = (length h, h @ [ob])"

definition heap_in :: "string \<Rightarrow> hval \<Rightarrow> heap \<Rightarrow> exc + bool" where
  \<comment> \<open>\<^verbatim>\<open>key in container\<close>, as \<open>py_in\<close>\<close>
  "heap_in k container h =
     (case container of
        HRef a \<Rightarrow>
          (case obj_at h a of
             Some (HDict d) \<Rightarrow> Inr (k \<in> dom d)
           | Some (HList xs) \<Rightarrow> Inr (HStr k \<in> set xs)
           | None \<Rightarrow> Inl TypeError)
      | HStr s \<Rightarrow> Inr (str_contains s k)
      | _ \<Rightarrow> Inl TypeError)"

text \<open>
  Lines 584 to 591 on the store. \<^verbatim>\<open>realmrep\<close> is the address of a dict (\<^verbatim>\<open>main\<close> calls
  the function with dicts, or with \<^verbatim>\<open>None\<close>, which has no \<^verbatim>\<open>copy\<close>). Every assignment
  goes to \<open>result\<close> or to \<open>attributes_copy\<close>, the two objects the function made.
\<close>

definition sanitize_cr_heap :: "nat \<Rightarrow> heap \<Rightarrow> exc + (nat \<times> heap)" where
  "sanitize_cr_heap realmrep h0 =
     (case obj_at h0 realmrep of
        Some (HDict d0) \<Rightarrow>
          let (result, h1) = alloc (HDict d0) h0;
              d1 = (if ''secret'' \<in> dom d0 then d0(''secret'' \<mapsto> HStr ''********'') else d0);
              h2 = h1[result := HDict d1]
          in (case d1 ''attributes'' of
                None \<Rightarrow> Inr (result, h2)
              | Some attributes \<Rightarrow>
                  (case heap_in private_key attributes h2 of
                     Inl x \<Rightarrow> Inl x
                   | Inr found \<Rightarrow>
                       if found then
                         (case attributes of
                            HRef a \<Rightarrow>
                              (case obj_at h2 a of
                                 Some (HDict ad) \<Rightarrow>
                                   let (attributes_copy, h3) = alloc (HDict ad) h2;
                                       h4 = h3[result := HDict (d1(''attributes'' \<mapsto> HRef attributes_copy))];
                                       h5 = h4[attributes_copy :=
                                               HDict (ad(private_key \<mapsto> HStr ''********''))]
                                   in Inr (result, h5)
                               | _ \<Rightarrow> Inl TypeError)
                          | _ \<Rightarrow> Inl AttributeError)
                       else Inr (result, h2)))
      | _ \<Rightarrow> Inl AttributeError)"

text \<open>
  The value an address stands for: the objects are followed to the depth \<open>n\<close>. In a
  closed store every address that an object holds is the address of an object.
\<close>

fun read_val :: "nat \<Rightarrow> heap \<Rightarrow> hval \<Rightarrow> pyval" where
  "read_val n h HNone = PNone"
| "read_val n h (HBool b) = PBool b"
| "read_val n h (HInt i) = PInt i"
| "read_val n h (HStr s) = PStr s"
| "read_val 0 h (HRef a) = PNone"
| "read_val (Suc n) h (HRef a) =
     (case obj_at h a of
        Some (HDict d) \<Rightarrow> PDict (\<lambda>k. map_option (read_val n h) (d k))
      | Some (HList xs) \<Rightarrow> PList (map (read_val n h) xs)
      | None \<Rightarrow> PNone)"

definition read_dict :: "nat \<Rightarrow> heap \<Rightarrow> nat \<Rightarrow> rep" where
  \<comment> \<open>the representation at an address that holds a dict\<close>
  "read_dict n h a =
     (case obj_at h a of
        Some (HDict d) \<Rightarrow> (\<lambda>k. map_option (read_val n h) (d k))
      | _ \<Rightarrow> Map.empty)"

definition ref_ok :: "heap \<Rightarrow> hval \<Rightarrow> bool" where
  "ref_ok h v = (case v of HRef a \<Rightarrow> a < length h | _ \<Rightarrow> True)"

definition closed :: "heap \<Rightarrow> bool" where
  "closed h =
     (\<forall>ob \<in> set h. case ob of
                     HDict d \<Rightarrow> (\<forall>v \<in> ran d. ref_ok h v)
                   | HList xs \<Rightarrow> (\<forall>v \<in> set xs. ref_ok h v))"

definition secret_redacted :: "(string \<Rightarrow> hval option) \<Rightarrow> (string \<Rightarrow> hval option)" where
  \<comment> \<open>the dict \<open>d1\<close> of \<open>sanitize_cr_heap\<close>\<close>
  "secret_redacted d = (if ''secret'' \<in> dom d then d(''secret'' \<mapsto> HStr ''********'') else d)"

definition read_result :: "nat \<Rightarrow> exc + (nat \<times> heap) \<Rightarrow> exc + rep" where
  \<comment> \<open>what \<open>sanitize_cr_heap\<close> returned, as a value\<close>
  "read_result n x = (case x of Inl e \<Rightarrow> Inl e | Inr (r, h) \<Rightarrow> Inr (read_dict n h r))"

definition result_sanitized :: "module_result \<Rightarrow> bool" where
  \<comment> \<open>every representation in the result is sanitized\<close>
  "result_sanitized res =
     (is_sanitized (proposed res) \<and> is_sanitized (existing res) \<and> is_sanitized (end_state res) \<and>
      side_sanitized (diff res ''before'') \<and> side_sanitized (diff res ''after''))"

text \<open>
  A task for the examples that sets a new SAML signing key, and the realm \<^verbatim>\<open>demo\<close> with a
  signing key.
\<close>

definition key_params :: params where
  "key_params =
     [(''token'', PStr ''t0''), (''state'', PStr ''present''), (''realm'', PStr ''demo''),
      (''attributes'', PDict [private_key \<mapsto> PStr ''NEW''])]"

definition key_module :: "bool \<Rightarrow> ansible_module" where
  "key_module check =
     \<lparr>given = [''token'', ''state'', ''realm'', ''attributes''],
      params = key_params, check_mode = check, module_diff = True\<rparr>"

definition key_realm :: rep where
  "key_realm =
     [''id'' \<mapsto> PStr ''demo'', ''realm'' \<mapsto> PStr ''demo'',
      ''attributes'' \<mapsto> PDict [private_key \<mapsto> PStr ''OLD'']]"

definition key_heap :: heap where
  \<comment> \<open>\<open>key_realm\<close> on the store: the realm at address 0, its attributes at address 1\<close>
  "key_heap =
     [HDict [''id'' \<mapsto> HStr ''demo'', ''realm'' \<mapsto> HStr ''demo'', ''attributes'' \<mapsto> HRef 1],
      HDict [private_key \<mapsto> HStr ''OLD'']]"

section \<open>The merged desired state\<close>

text \<open>
  C2. The desired realm is the existing representation overlaid with the changeset: on
  every key the changeset's value when it has one, the existing value otherwise. For
  existing \<open>{a:1, b:2}\<close> and changeset \<open>{b:3, c:4}\<close> it is \<open>{a:1, b:3, c:4}\<close>, and over an
  empty existing representation it is the changeset.
\<close>

theorem desired_realm_overlay:
  "desired_realm before_realm changeset k =
     (case changeset k of Some v \<Rightarrow> Some v | None \<Rightarrow> before_realm k)
   \<and> dom (desired_realm before_realm changeset) = dom before_realm \<union> dom changeset
   \<and> desired_realm [''a'' \<mapsto> PInt 1, ''b'' \<mapsto> PInt 2] [''b'' \<mapsto> PInt 3, ''c'' \<mapsto> PInt 4]
       = [''a'' \<mapsto> PInt 1, ''b'' \<mapsto> PInt 3, ''c'' \<mapsto> PInt 4]
   \<and> desired_realm Map.empty changeset = changeset"
proof (intro conjI)
  show "desired_realm before_realm changeset k =
     (case changeset k of Some v \<Rightarrow> Some v | None \<Rightarrow> before_realm k)"
    by (simp add: desired_realm_def map_add_def)
  show "dom (desired_realm before_realm changeset) = dom before_realm \<union> dom changeset"
    by (auto simp: desired_realm_def)
  show "desired_realm [''a'' \<mapsto> PInt 1, ''b'' \<mapsto> PInt 2] [''b'' \<mapsto> PInt 3, ''c'' \<mapsto> PInt 4]
       = [''a'' \<mapsto> PInt 1, ''b'' \<mapsto> PInt 3, ''c'' \<mapsto> PInt 4]"
    by (simp add: desired_realm_def fun_eq_iff map_add_def)
  show "desired_realm Map.empty changeset = changeset"
    by (simp add: desired_realm_def)
qed

section \<open>The changeset\<close>

lemma fold_assign:
  "fold (\<lambda>x cs. cs(f x \<mapsto> g x)) xs m k =
     (case filter (\<lambda>x. f x = k) xs of [] \<Rightarrow> m k | y # ys \<Rightarrow> Some (g (last (y # ys))))"
proof (induction xs arbitrary: m)
  case Nil
  show ?case by simp
next
  case (Cons x xs)
  have "fold (\<lambda>x cs. cs(f x \<mapsto> g x)) (x # xs) m k =
        fold (\<lambda>x cs. cs(f x \<mapsto> g x)) xs (m(f x \<mapsto> g x)) k"
    by simp
  also have "\<dots> = (case filter (\<lambda>x. f x = k) xs of
                      [] \<Rightarrow> (m(f x \<mapsto> g x)) k
                    | y # ys \<Rightarrow> Some (g (last (y # ys))))"
    by (rule Cons.IH)
  also have "\<dots> = (case filter (\<lambda>x. f x = k) (x # xs) of
                      [] \<Rightarrow> m k
                    | y # ys \<Rightarrow> Some (g (last (y # ys))))"
    by (cases "filter (\<lambda>x. f x = k) xs") auto
  finally show ?case .
qed

lemma build_changeset_lookup:
  "build_changeset cml ps rps k =
     (case filter (\<lambda>x. cml x = k) rps of
        [] \<Rightarrow> None
      | y # ys \<Rightarrow> Some (params_get ps (last (y # ys))))"
  unfolding build_changeset_def by (simp add: fold_assign)

lemma dom_build_changeset: "dom (build_changeset cml ps rps) = cml ` set rps"
proof -
  have "\<And>k. (filter (\<lambda>x. cml x = k) rps = []) = (k \<notin> cml ` set rps)"
    by (auto simp: filter_empty_conv)
  then show ?thesis
    by (auto simp: dom_def build_changeset_lookup split: list.splits)
qed

lemma build_changeset_value:
  assumes "build_changeset cml ps rps k = Some v"
  shows "\<exists>x \<in> set rps. cml x = k \<and> v = params_get ps x"
proof -
  from assms obtain y ys where f: "filter (\<lambda>x. cml x = k) rps = y # ys"
    and v: "v = params_get ps (last (y # ys))"
    by (auto simp: build_changeset_lookup split: list.splits)
  have "last (y # ys) \<in> set (filter (\<lambda>x. cml x = k) rps)"
    unfolding f by (rule last_in_set) simp
  then show ?thesis using v by auto
qed

lemma build_changeset_inj:
  assumes inj: "inj_on cml (set rps)" and x: "x \<in> set rps"
  shows "build_changeset cml ps rps (cml x) = Some (params_get ps x)"
proof -
  let ?same = "filter (\<lambda>y. cml y = cml x) rps"
  from x have "x \<in> set ?same" by simp
  then obtain y ys where f: "?same = y # ys"
    by (cases ?same) auto
  have "last (y # ys) \<in> set ?same"
    unfolding f by (rule last_in_set) simp
  then have l: "last (y # ys) \<in> set rps" and c: "cml (last (y # ys)) = cml x"
    by simp_all
  have "last (y # ys) = x"
    by (rule inj_onD [OF inj c l x])
  then have "build_changeset cml ps rps (cml x) = Some (params_get ps (last (y # ys)))"
    unfolding build_changeset_lookup f by simp
  then show ?thesis
    using \<open>last (y # ys) = x\<close> by (simp only:)
qed

lemma set_realm_params:
  "set (realm_params ign ps) = {x \<in> fst ` set ps. x \<notin> set ign \<and> params_get ps x \<noteq> PNone}"
  by (auto simp: realm_params_def)

text \<open>
  C8. The keys of the changeset are the \<open>camel\<close> names of the parameters that are not
  among the connection and authentication arguments, are not \<^verbatim>\<open>state\<close>, and have a value
  other than \<^verbatim>\<open>None\<close>. Every value of the changeset is the value of such a parameter, as
  it was given; and when \<open>camel\<close> maps no two parameters to one name, every such parameter
  has its value under its \<open>camel\<close> name.
\<close>

theorem changeset_keys_and_values:
  "dom (changeset_of e ps) =
     camel e ` {x \<in> fst ` set ps. x \<notin> set (keycloak_argument_spec_keys e) \<and> x \<noteq> ''state''
                  \<and> params_get ps x \<noteq> PNone}
   \<and> (\<forall>k v. changeset_of e ps k = Some v \<longrightarrow>
         (\<exists>x \<in> fst ` set ps. x \<notin> set (keycloak_argument_spec_keys e) \<and> x \<noteq> ''state''
             \<and> params_get ps x \<noteq> PNone \<and> camel e x = k \<and> v = params_get ps x))
   \<and> (inj_on (camel e) (fst ` set ps) \<longrightarrow>
         (\<forall>x \<in> fst ` set ps. x \<notin> set (keycloak_argument_spec_keys e) \<and> x \<noteq> ''state''
             \<and> params_get ps x \<noteq> PNone \<longrightarrow> changeset_of e ps (camel e x) = Some (params_get ps x)))"
proof (intro conjI allI impI ballI)
  let ?ign = "keycloak_argument_spec_keys e @ [''state'']"
  show "dom (changeset_of e ps) =
     camel e ` {x \<in> fst ` set ps. x \<notin> set (keycloak_argument_spec_keys e) \<and> x \<noteq> ''state''
                  \<and> params_get ps x \<noteq> PNone}"
    by (auto simp: changeset_of_def dom_build_changeset set_realm_params)
next
  fix k v assume "changeset_of e ps k = Some v"
  then obtain x where "x \<in> set (realm_params (keycloak_argument_spec_keys e @ [''state'']) ps)"
    and "camel e x = k" and "v = params_get ps x"
    unfolding changeset_of_def by (blast dest: build_changeset_value)
  then show "\<exists>x \<in> fst ` set ps. x \<notin> set (keycloak_argument_spec_keys e) \<and> x \<noteq> ''state''
             \<and> params_get ps x \<noteq> PNone \<and> camel e x = k \<and> v = params_get ps x"
    by (auto simp: set_realm_params)
next
  fix x assume inj: "inj_on (camel e) (fst ` set ps)" and x: "x \<in> fst ` set ps"
    and k: "x \<notin> set (keycloak_argument_spec_keys e) \<and> x \<noteq> ''state'' \<and> params_get ps x \<noteq> PNone"
  have sub: "set (realm_params (keycloak_argument_spec_keys e @ [''state'']) ps) \<subseteq> fst ` set ps"
    by (auto simp: set_realm_params)
  have "inj_on (camel e) (set (realm_params (keycloak_argument_spec_keys e @ [''state'']) ps))"
    by (rule inj_on_subset [OF inj sub])
  moreover have "x \<in> set (realm_params (keycloak_argument_spec_keys e @ [''state'']) ps)"
    using x k by (auto simp: set_realm_params)
  ultimately show "changeset_of e ps (camel e x) = Some (params_get ps x)"
    unfolding changeset_of_def by (rule build_changeset_inj)
qed

lemma example_changeset:
  "changeset_of example_env (example_params st) =
     [''realm'' \<mapsto> PStr ''demo'', ''displayName'' \<mapsto> PStr ''Demo'']"
  by (simp add: changeset_of_def example_env_def example_params_def realm_params_def
      build_changeset_def params_get_def upper_def)

theorem changeset_keys_and_values_witness:
  "inj_on (camel example_env) (fst ` set (example_params (PStr ''present'')))
   \<and> dom (changeset_of example_env (example_params (PStr ''present''))) = {''realm'', ''displayName''}
   \<and> changeset_of example_env (example_params (PStr ''present'')) ''displayName'' = Some (PStr ''Demo'')"
proof -
  let ?ps = "example_params (PStr ''present'')"
  have inj: "inj_on (camel example_env) (fst ` set ?ps)"
    by (simp add: example_env_def example_params_def upper_def)
  have mem: "''display_name'' \<in> fst ` set ?ps"
    by (simp add: example_params_def)
  have kept: "''display_name'' \<notin> set (keycloak_argument_spec_keys example_env)
      \<and> ''display_name'' \<noteq> ''state'' \<and> params_get ?ps ''display_name'' \<noteq> PNone"
    by (simp add: example_env_def example_params_def params_get_def)
  have "changeset_of example_env ?ps (camel example_env ''display_name'')
          = Some (params_get ?ps ''display_name'')"
    using changeset_keys_and_values [of example_env ?ps] inj mem kept by blast
  moreover have "camel example_env ''display_name'' = ''displayName''"
    by (simp add: example_env_def upper_def)
  moreover have "params_get ?ps ''display_name'' = PStr ''Demo''"
    by (simp add: example_params_def params_get_def)
  moreover have "dom (changeset_of example_env ?ps) = {''realm'', ''displayName''}"
    by (auto simp: example_changeset)
  ultimately show ?thesis using inj by simp
qed

section \<open>The example environment, evaluated\<close>

lemma requirements_met_iff:
  "requirements_met ks =
     ((''id'' \<in> set ks \<or> ''realm'' \<in> set ks \<or> ''enabled'' \<in> set ks)
      \<and> (''token'' \<in> set ks \<or> ''auth_realm'' \<in> set ks \<or> ''auth_username'' \<in> set ks
           \<or> ''auth_password'' \<in> set ks)
      \<and> (''auth_realm'' \<in> set ks \<or> ''auth_username'' \<in> set ks \<or> ''auth_password'' \<in> set ks
           \<longrightarrow> ''auth_realm'' \<in> set ks \<and> ''auth_username'' \<in> set ks
               \<and> ''auth_password'' \<in> set ks))"
  by (simp add: requirements_met_def required_one_of_def required_together_def
      check_required_one_of_def check_required_together_def supplied_def)

lemma ex_req: "requirements_met (given (example_module st chk))"
  by (simp add: example_module_def requirements_met_iff)

lemma ex_mod:
  "params (example_module st chk) = example_params st"
  "check_mode (example_module st chk) = chk"
  "module_diff (example_module st chk) = False"
  by (simp_all add: example_module_def)

lemma ex_get:
  "params_get (example_params st) ''realm'' = PStr ''demo''"
  "params_get (example_params st) ''state'' = st"
  by (simp_all add: example_params_def params_get_def)

lemma ex_env:
  "get_token example_env ps = Inr ()"
  "KeycloakAPI example_env h = one_realm_server"
  by (simp_all add: example_env_def)

lemma ex_srv:
  "get_realm_by_id one_realm_server name r = Inr r"
  "create_realm one_realm_server d r = Inr (Some d)"
  "update_realm one_realm_server d name r = Inr (Some d)"
  "delete_realm one_realm_server name r = Inr None"
  by (simp_all add: one_realm_server_def)

lemma ex_main:
  "main example_env (example_module st chk) r0 =
     reconcile example_env one_realm_server (example_module st chk) r0 [GetRealm (PStr ''demo'')] r0"
  by (simp add: main_def ex_req) (simp add: ex_mod ex_get ex_env ex_srv Let_def)

lemma ex_absent_absent:
  "main example_env (example_module (PStr ''absent'') False) None =
     \<lparr>status = Exit,
      result = \<lparr>changed = False, msg = Text ''Realm does not exist, doing nothing.'',
                diff = Map.empty,
                proposed = [''realm'' \<mapsto> PStr ''demo'', ''displayName'' \<mapsto> PStr ''Demo''],
                existing = Map.empty, end_state = Map.empty\<rparr>,
      calls = [GetRealm (PStr ''demo'')], remote = None\<rparr>"
  by (simp add: ex_main reconcile_def before_realm_of_def ex_mod ex_get example_changeset sanitize_cr_def desired_realm_def
      absent_path_def stop_def initial_result_def Let_def)

lemma null_mod:
  "check_mode (null_id_module st chk) = chk"
  "module_diff (null_id_module st chk) = False"
  by (simp_all add: null_id_module_def)

lemma null_get:
  "params_get (params (null_id_module st chk)) ''realm'' = PNone"
  "params_get (params (null_id_module st chk)) ''state'' = st"
  "params_get (params (null_id_module st chk)) ''id'' = PNone"
  "params_get (params (null_id_module st chk)) ''enabled'' = PNone"
  by (simp_all add: null_id_module_def params_get_def)

lemma null_req: "requirements_met (given (null_id_module st chk))"
  by (simp add: null_id_module_def requirements_met_iff)

lemma null_changeset: "changeset_of example_env (params (null_id_module st chk)) = Map.empty"
  by (simp add: changeset_of_def example_env_def null_id_module_def realm_params_def
      build_changeset_def params_get_def)

lemma null_starts: "starts example_env (null_id_module st chk) r0 () r0"
  by (simp add: starts_def null_req) (simp add: null_get ex_env ex_srv)

section \<open>Calls and server state, path by path\<close>

lemma absent_path_check:
  "check_mode m \<Longrightarrow>
     calls (absent_path kc m st d res cs r0) = cs \<and> remote (absent_path kc m st d res cs r0) = r0"
  by (simp add: absent_path_def stop_def Let_def split: option.splits sum.splits)

lemma update_path_check:
  "check_mode m \<Longrightarrow>
     calls (update_path kc m realm b bs d res cs r0) = cs
     \<and> remote (update_path kc m realm b bs d res cs r0) = r0"
  by (simp add: update_path_def stop_def Let_def split: option.splits sum.splits)

lemma delete_path_check:
  "check_mode m \<Longrightarrow>
     calls (delete_path kc m realm b bs res cs r0) = cs
     \<and> remote (delete_path kc m realm b bs res cs r0) = r0"
  by (simp add: delete_path_def stop_def Let_def split: option.splits sum.splits)

lemma reconcile_check:
  "check_mode m \<Longrightarrow>
     calls (reconcile e kc m fetched cs r0) = cs \<and> remote (reconcile e kc m fetched cs r0) = r0"
  by (simp add: reconcile_def stop_def Let_def absent_path_check update_path_check
      delete_path_check split: sum.splits)

lemma main_check:
  "check_mode m \<Longrightarrow>
     (calls (main e m r0) = [] \<or> calls (main e m r0) = [GetRealm (params_get (params m) ''realm'')])
     \<and> remote (main e m r0) = r0"
  by (simp add: main_def stop_def Let_def reconcile_check split: sum.splits)

text \<open>
  C3. In check mode no call that changes the server is made, on any path and whatever the
  parameters and the answers of the server are: among the calls of the run there is no
  create, update or delete, and the state of the server at the end is the state at the
  start.
\<close>

theorem check_mode_never_mutates:
  "check_mode m \<Longrightarrow>
     filter mutating (calls (main e m r0)) = [] \<and> remote (main e m r0) = r0"
  using main_check [of m e r0] by auto

section \<open>Properties of the sanitizer\<close>

lemma sanitize_cr_empty: "sanitize_cr Map.empty = Inr Map.empty"
  by (simp add: sanitize_cr_def)

lemma sanitize_cr_typed:
  assumes "attributes_typed r"
  shows "\<exists>s. sanitize_cr r = Inr s"
proof (cases "r ''attributes''")
  case None
  then show ?thesis by (simp add: sanitize_cr_def Let_def)
next
  case (Some v)
  with assms obtain a where "v = PDict a"
    by (cases v) (simp_all add: attributes_typed_def)
  with Some show ?thesis
    by (simp add: sanitize_cr_def Let_def py_in_def)
qed

lemma sanitize_cr_secret:
  "sanitize_cr r = Inr s \<Longrightarrow>
     s ''secret'' = (if ''secret'' \<in> dom r then Some redacted else None)"
  by (auto simp: sanitize_cr_def Let_def split: option.splits sum.splits pyval.splits if_splits)

lemma sanitize_cr_attributes:
  "sanitize_cr r = Inr s \<Longrightarrow> r ''attributes'' = Some (PDict a) \<Longrightarrow>
     s ''attributes'' = Some (PDict (if private_key \<in> dom a then a(private_key \<mapsto> redacted) else a))"
  by (auto simp: sanitize_cr_def Let_def py_in_def split: if_splits)

lemma sanitize_cr_attributes_other:
  "sanitize_cr r = Inr s \<Longrightarrow> \<forall>a. r ''attributes'' \<noteq> Some (PDict a) \<Longrightarrow>
     s ''attributes'' = r ''attributes''"
  by (auto simp: sanitize_cr_def Let_def py_in_def split: option.splits sum.splits pyval.splits if_splits)

lemma sanitize_cr_other:
  "sanitize_cr r = Inr s \<Longrightarrow> k \<noteq> ''secret'' \<Longrightarrow> k \<noteq> ''attributes'' \<Longrightarrow> s k = r k"
  by (auto simp: sanitize_cr_def Let_def split: option.splits sum.splits pyval.splits if_splits)

lemma sanitize_cr_dom: "sanitize_cr r = Inr s \<Longrightarrow> dom s = dom r"
  by (auto simp: sanitize_cr_def Let_def split: option.splits sum.splits pyval.splits if_splits)

lemma sanitize_cr_is_sanitized: "sanitize_cr r = Inr s \<Longrightarrow> is_sanitized s"
proof -
  assume s: "sanitize_cr r = Inr s"
  have sec: "case s ''secret'' of None \<Rightarrow> True | Some v \<Rightarrow> v = redacted"
    by (simp add: sanitize_cr_secret [OF s])
  have att: "case s ''attributes'' of
         Some (PDict a) \<Rightarrow> (case a private_key of None \<Rightarrow> True | Some v \<Rightarrow> v = redacted)
       | _ \<Rightarrow> True"
  proof (cases "\<exists>a. r ''attributes'' = Some (PDict a)")
    case True
    then obtain a where a: "r ''attributes'' = Some (PDict a)" by blast
    show ?thesis
      by (auto simp: sanitize_cr_attributes [OF s a] split: option.splits)
  next
    case False
    then have "s ''attributes'' = r ''attributes''"
      using sanitize_cr_attributes_other [OF s] by blast
    with False show ?thesis
      by (auto split: option.splits pyval.splits)
  qed
  from sec att show ?thesis by (simp add: is_sanitized_def)
qed

lemma sanitize_cr_nonempty: "sanitize_cr r = Inr s \<Longrightarrow> (s = Map.empty) = (r = Map.empty)"
  using sanitize_cr_dom [of r s] by (metis dom_eq_empty_conv)

lemma attributes_typed_desired:
  "attributes_typed b \<Longrightarrow> attributes_typed c \<Longrightarrow> attributes_typed (desired_realm b c)"
  by (auto simp: attributes_typed_def desired_realm_def map_add_def split: option.splits)

lemma sanitize_cr_returns:
  "(\<exists>s. sanitize_cr r = Inr s) =
     (case r ''attributes'' of
        None \<Rightarrow> True
      | Some a \<Rightarrow> (case py_in private_key a of
                     Inl x \<Rightarrow> False
                   | Inr found \<Rightarrow> found \<longrightarrow> (\<exists>d. a = PDict d)))"
  by (auto simp: sanitize_cr_def Let_def split: option.splits sum.splits pyval.splits)

lemma sanitize_cr_same_attributes:
  assumes "r ''attributes'' = r' ''attributes''" and "sanitize_cr r = Inr s"
  shows "\<exists>s'. sanitize_cr r' = Inr s'"
proof -
  from assms(2) have "\<exists>s. sanitize_cr r = Inr s" by blast
  then show ?thesis
    unfolding sanitize_cr_returns assms(1) .
qed

lemma sanitize_cr_desired:
  assumes "sanitize_cr b = Inr bs" and "sanitize_cr c = Inr p"
  shows "\<exists>s. sanitize_cr (desired_realm b c) = Inr s"
proof (cases "c ''attributes''")
  case None
  then have "b ''attributes'' = desired_realm b c ''attributes''"
    by (simp add: desired_realm_def map_add_def)
  then show ?thesis using assms(1) by (rule sanitize_cr_same_attributes)
next
  case (Some v)
  then have "c ''attributes'' = desired_realm b c ''attributes''"
    by (simp add: desired_realm_def map_add_def)
  then show ?thesis using assms(2) by (rule sanitize_cr_same_attributes)
qed

section \<open>From main to the three paths\<close>

lemma main_starts:
  assumes "starts e m r0 h fetched"
  shows "main e m r0 =
     reconcile e (KeycloakAPI e h) m fetched [GetRealm (params_get (params m) ''realm'')] r0"
  using assms by (simp add: starts_def main_def Let_def)

lemma reconcile_sanitized:
  assumes "sanitize_cr (changeset_of e (params m)) = Inr p"
    and "sanitize_cr (before_realm_of fetched) = Inr bs"
  shows "reconcile e kc m fetched cs r0 =
     (if before_realm_of fetched = Map.empty then
        absent_path kc m (params_get (params m) ''state'')
          (desired_realm (before_realm_of fetched) (changeset_of e (params m)))
          (initial_result\<lparr>proposed := p, existing := bs\<rparr>) cs r0
      else if params_get (params m) ''state'' = PStr ''present'' then
        update_path kc m (params_get (params m) ''realm'') (before_realm_of fetched) bs
          (desired_realm (before_realm_of fetched) (changeset_of e (params m)))
          (initial_result\<lparr>proposed := p, existing := bs\<rparr>) cs r0
      else
        delete_path kc m (params_get (params m) ''realm'') (before_realm_of fetched) bs
          (initial_result\<lparr>proposed := p, existing := bs\<rparr>) cs r0)"
  using assms by (simp add: reconcile_def Let_def)

lemma main_absent:
  assumes "starts e m r0 h fetched" and "before_realm_of fetched = Map.empty"
    and "sanitize_cr (changeset_of e (params m)) = Inr p"
  shows "main e m r0 =
     absent_path (KeycloakAPI e h) m (params_get (params m) ''state'')
       (desired_realm Map.empty (changeset_of e (params m)))
       (initial_result\<lparr>proposed := p, existing := Map.empty\<rparr>)
       [GetRealm (params_get (params m) ''realm'')] r0"
proof -
  have "sanitize_cr (before_realm_of fetched) = Inr Map.empty"
    by (simp add: assms(2) sanitize_cr_empty)
  from reconcile_sanitized [OF assms(3) this] show ?thesis
    by (simp add: main_starts [OF assms(1)] assms(2))
qed

lemma main_update:
  assumes "starts e m r0 h (Some b)" and "b \<noteq> Map.empty"
    and "params_get (params m) ''state'' = PStr ''present''"
    and "sanitize_cr (changeset_of e (params m)) = Inr p"
    and "sanitize_cr b = Inr bs"
  shows "main e m r0 =
     update_path (KeycloakAPI e h) m (params_get (params m) ''realm'') b bs
       (desired_realm b (changeset_of e (params m)))
       (initial_result\<lparr>proposed := p, existing := bs\<rparr>)
       [GetRealm (params_get (params m) ''realm'')] r0"
proof -
  have b: "before_realm_of (Some b) = b" by (simp add: before_realm_of_def)
  from assms(5) have "sanitize_cr (before_realm_of (Some b)) = Inr bs" by (simp add: b)
  from reconcile_sanitized [OF assms(4) this] show ?thesis
    by (simp add: main_starts [OF assms(1)] b assms(2,3))
qed

lemma main_delete:
  assumes "starts e m r0 h (Some b)" and "b \<noteq> Map.empty"
    and "params_get (params m) ''state'' \<noteq> PStr ''present''"
    and "sanitize_cr (changeset_of e (params m)) = Inr p"
    and "sanitize_cr b = Inr bs"
  shows "main e m r0 =
     delete_path (KeycloakAPI e h) m (params_get (params m) ''realm'') b bs
       (initial_result\<lparr>proposed := p, existing := bs\<rparr>)
       [GetRealm (params_get (params m) ''realm'')] r0"
proof -
  have b: "before_realm_of (Some b) = b" by (simp add: before_realm_of_def)
  from assms(5) have "sanitize_cr (before_realm_of (Some b)) = Inr bs" by (simp add: b)
  from reconcile_sanitized [OF assms(4) this] show ?thesis
    by (simp add: main_starts [OF assms(1)] b assms(2,3))
qed

section \<open>The create path\<close>

text \<open>
  C5. On the create path (the fetch finds no realm and \<^verbatim>\<open>state\<close> is not \<^verbatim>\<open>'absent'\<close>): when
  the desired realm has no \<^verbatim>\<open>'id'\<close>, the run ends through \<^verbatim>\<open>fail_json\<close> with the message
  of line 748, in check mode and in a real run. The first fetch is the only call made, and
  the server is as it was. The changeset is one that \<^verbatim>\<open>sanitize_cr\<close> accepts (line 729
  runs before the test; see \<open>sanitize_cr_typed\<close>).
\<close>

theorem create_needs_id:
  assumes "starts e m r0 h fetched" and "before_realm_of fetched = Map.empty"
    and "params_get (params m) ''state'' \<noteq> PStr ''absent''"
    and "sanitize_cr (changeset_of e (params m)) = Inr p"
    and "''id'' \<notin> dom (desired_realm (before_realm_of fetched) (changeset_of e (params m)))"
  shows "status (main e m r0) = Fail ''id needs to be specified when creating a new realm''
     \<and> calls (main e m r0) = [GetRealm (params_get (params m) ''realm'')]
     \<and> remote (main e m r0) = r0"
proof -
  from assms(5) have "desired_realm Map.empty (changeset_of e (params m)) ''id'' = None"
    by (auto simp: assms(2))
  then show ?thesis
    by (simp add: main_absent [OF assms(1,2,4)] absent_path_def assms(3) stop_def)
qed

section \<open>Nothing to do\<close>

text \<open>
  C6, as amended. When the fetch finds no realm and \<^verbatim>\<open>state\<close> is \<^verbatim>\<open>'absent'\<close>, the run
  exits with \<^verbatim>\<open>changed\<close> false, \<^verbatim>\<open>existing\<close> and \<^verbatim>\<open>end_state\<close> empty and no call but the
  first fetch. \<^verbatim>\<open>proposed\<close> is the sanitized changeset that line 729 stored, not the
  empty dict: the example below has a changeset of two entries.
\<close>

theorem absent_absent_noop:
  assumes "starts e m r0 h fetched" and "before_realm_of fetched = Map.empty"
    and "params_get (params m) ''state'' = PStr ''absent''"
    and "sanitize_cr (changeset_of e (params m)) = Inr p"
  shows "status (main e m r0) = Exit
     \<and> changed (result (main e m r0)) = False
     \<and> proposed (result (main e m r0)) = p
     \<and> existing (result (main e m r0)) = Map.empty
     \<and> end_state (result (main e m r0)) = Map.empty
     \<and> calls (main e m r0) = [GetRealm (params_get (params m) ''realm'')]
     \<and> remote (main e m r0) = r0"
  by (simp add: main_absent [OF assms(1,2,4)] absent_path_def assms(3) stop_def Let_def
      initial_result_def)

section \<open>The update path\<close>

lemma update_path_check_mode:
  assumes "check_mode m" and "sanitize_cr d = Inr ds"
  shows "update_path kc m realm b bs d res cs r0 =
     stop Exit
       ((if module_diff m
         then res\<lparr>changed := True, diff := before_after (PDict bs) (PDict ds)\<rparr>
         else res\<lparr>changed := True\<rparr>)\<lparr>changed := \<not> dict_eq b d\<rparr>) cs r0"
  using assms by (simp add: update_path_def Let_def)

lemma update_path_real_calls:
  assumes "\<not> check_mode m"
  shows "filter mutating (calls (update_path kc m realm b bs d res cs r0)) =
     filter mutating cs @ [UpdateRealm d realm]"
  using assms
  by (simp add: update_path_def Let_def stop_def split: sum.splits option.splits)

lemma update_path_real_changed:
  assumes "\<not> check_mode m" and "update_realm kc d realm r0 = Inr r1"
    and "get_realm_by_id kc realm r1 = Inr after_realm"
  shows "changed (result (update_path kc m realm b bs d res cs r0)) =
           (\<not> dict_eq_opt b after_realm)
     \<and> (status (update_path kc m realm b bs d res cs r0) = Exit) =
           ((\<exists>s. sanitize_cr_opt after_realm = Inr s) \<and> ''id'' \<in> dom d)"
  using assms
  by (auto simp: update_path_def Let_def stop_def split: sum.splits option.splits)

text \<open>
  C1. On the update path (a realm is fetched and \<^verbatim>\<open>state\<close> is \<^verbatim>\<open>'present'\<close>): in check
  mode the run exits, makes no changing call, and reports \<^verbatim>\<open>changed\<close> false exactly when
  the desired realm equals the existing one. In a real run the update call is made in
  every case and is the only changing call; when it succeeds and the realm is fetched
  again, \<^verbatim>\<open>changed\<close>, set to true before, is set to false exactly when the fetched realm
  equals the existing one. The run then exits when the fetched realm can be sanitized and
  the desired realm has the \<^verbatim>\<open>'id'\<close> that the message of line 794 names.
\<close>

theorem update_changed_by_comparison:
  assumes "starts e m r0 h (Some b)" and "b \<noteq> Map.empty"
    and "params_get (params m) ''state'' = PStr ''present''"
    and "sanitize_cr (changeset_of e (params m)) = Inr p"
    and "sanitize_cr b = Inr bs"
  shows "(check_mode m \<longrightarrow>
            status (main e m r0) = Exit
          \<and> changed (result (main e m r0))
              = (\<not> dict_eq b (desired_realm b (changeset_of e (params m))))
          \<and> filter mutating (calls (main e m r0)) = [])
       \<and> (\<not> check_mode m \<longrightarrow>
            filter mutating (calls (main e m r0))
              = [UpdateRealm (desired_realm b (changeset_of e (params m)))
                   (params_get (params m) ''realm'')]
          \<and> (\<forall>r1 after_realm.
                update_realm (KeycloakAPI e h) (desired_realm b (changeset_of e (params m)))
                  (params_get (params m) ''realm'') r0 = Inr r1
              \<and> get_realm_by_id (KeycloakAPI e h) (params_get (params m) ''realm'') r1
                  = Inr after_realm
              \<longrightarrow> changed (result (main e m r0)) = (\<not> dict_eq_opt b after_realm)
                \<and> (status (main e m r0) = Exit)
                    = ((\<exists>s. sanitize_cr_opt after_realm = Inr s)
                       \<and> ''id'' \<in> dom (desired_realm b (changeset_of e (params m))))))"
proof (intro conjI impI allI)
  let ?d = "desired_realm b (changeset_of e (params m))"
  note main = main_update [OF assms]
  obtain ds where ds: "sanitize_cr ?d = Inr ds"
    using sanitize_cr_desired [OF assms(5,4)] by blast
  {
    assume c: "check_mode m"
    show "status (main e m r0) = Exit"
      by (simp add: main update_path_check_mode [OF c ds] stop_def)
    show "changed (result (main e m r0)) = (\<not> dict_eq b ?d)"
      by (simp add: main update_path_check_mode [OF c ds] stop_def)
    show "filter mutating (calls (main e m r0)) = []"
      by (simp add: main update_path_check_mode [OF c ds] stop_def)
  }
  {
    assume c: "\<not> check_mode m"
    show "filter mutating (calls (main e m r0)) = [UpdateRealm ?d (params_get (params m) ''realm'')]"
      by (simp add: main update_path_real_calls [OF c])
    fix r1 after_realm
    assume u: "update_realm (KeycloakAPI e h) ?d (params_get (params m) ''realm'') r0 = Inr r1
       \<and> get_realm_by_id (KeycloakAPI e h) (params_get (params m) ''realm'') r1 = Inr after_realm"
    from u have u1: "update_realm (KeycloakAPI e h) ?d (params_get (params m) ''realm'') r0 = Inr r1"
      and u2: "get_realm_by_id (KeycloakAPI e h) (params_get (params m) ''realm'') r1 = Inr after_realm"
      by simp_all
    show "changed (result (main e m r0)) = (\<not> dict_eq_opt b after_realm)"
      using update_path_real_changed [OF c u1 u2] by (simp add: main)
    show "(status (main e m r0) = Exit)
            = ((\<exists>s. sanitize_cr_opt after_realm = Inr s) \<and> ''id'' \<in> dom ?d)"
      using update_path_real_changed [OF c u1 u2] by (simp add: main)
  }
qed

section \<open>The delete path\<close>

lemma delete_path_check_mode:
  assumes "check_mode m"
  shows "delete_path kc m realm b bs res cs r0 =
     stop Exit
       (if module_diff m
        then res\<lparr>changed := True, diff := before_after (PDict bs) (PStr '''')\<rparr>
        else res\<lparr>changed := True\<rparr>) cs r0"
  using assms by (simp add: delete_path_def Let_def)

lemma delete_path_real:
  assumes "\<not> check_mode m" and "delete_realm kc realm r0 = Inr r1"
  shows "proposed (result (delete_path kc m realm b bs res cs r0)) = Map.empty
     \<and> end_state (result (delete_path kc m realm b bs res cs r0)) = Map.empty
     \<and> changed (result (delete_path kc m realm b bs res cs r0)) = True
     \<and> calls (delete_path kc m realm b bs res cs r0) = cs @ [DeleteRealm realm]
     \<and> (status (delete_path kc m realm b bs res cs r0) = Exit) = (''id'' \<in> dom b)"
  using assms
  by (auto simp: delete_path_def Let_def stop_def split: option.splits)

text \<open>
  C10. On the delete path (a realm is fetched and \<^verbatim>\<open>state\<close> is not \<^verbatim>\<open>'present'\<close>), for
  a realm whose representation has the \<^verbatim>\<open>'id'\<close> that the message of line 813 names: a
  run in check mode exits at line 805 and returns \<^verbatim>\<open>proposed\<close> as line 729 set it, the
  sanitized changeset; a real run whose delete call succeeds exits and returns
  \<^verbatim>\<open>proposed\<close> as line 810 reset it, the empty dict. The sanitized changeset has the
  keys of the changeset, so the two values are different exactly when the changeset has an
  entry.
\<close>

theorem delete_proposed_differs:
  assumes "starts e m r0 h (Some b)" and "''id'' \<in> dom b"
    and "params_get (params m) ''state'' \<noteq> PStr ''present''"
    and "sanitize_cr (changeset_of e (params m)) = Inr p"
    and "sanitize_cr b = Inr bs"
  shows "(check_mode m \<longrightarrow>
            status (main e m r0) = Exit \<and> proposed (result (main e m r0)) = p)
       \<and> (\<not> check_mode m \<longrightarrow>
            (\<forall>r1. delete_realm (KeycloakAPI e h) (params_get (params m) ''realm'') r0 = Inr r1
               \<longrightarrow> status (main e m r0) = Exit
                 \<and> proposed (result (main e m r0)) = Map.empty))
       \<and> dom p = dom (changeset_of e (params m))
       \<and> (p \<noteq> Map.empty) = (changeset_of e (params m) \<noteq> Map.empty)"
proof (intro conjI impI allI)
  from assms(2) have nb: "b \<noteq> Map.empty" by auto
  note main = main_delete [OF assms(1) nb assms(3,4,5)]
  {
    assume c: "check_mode m"
    show "status (main e m r0) = Exit"
      by (simp add: main delete_path_check_mode [OF c] stop_def)
    show "proposed (result (main e m r0)) = p"
      by (simp add: main delete_path_check_mode [OF c] stop_def initial_result_def)
  }
  {
    fix r1
    assume c: "\<not> check_mode m"
      and d: "delete_realm (KeycloakAPI e h) (params_get (params m) ''realm'') r0 = Inr r1"
    show "proposed (result (main e m r0)) = Map.empty"
      using delete_path_real [OF c d] by (simp add: main)
    show "status (main e m r0) = Exit"
      using delete_path_real [OF c d] assms(2) by (simp add: main)
  }
  show "dom p = dom (changeset_of e (params m))"
    by (rule sanitize_cr_dom [OF assms(4)])
  show "(p \<noteq> Map.empty) = (changeset_of e (params m) \<noteq> Map.empty)"
    using sanitize_cr_nonempty [OF assms(4)] by simp
qed

section \<open>The theorems at the example\<close>

lemma ex_starts: "starts example_env (example_module st chk) r0 () r0"
  by (simp add: starts_def ex_req) (simp add: ex_mod ex_get ex_env ex_srv)

lemma ex_san_cs:
  "sanitize_cr (changeset_of example_env (params (example_module st chk))) =
     Inr [''realm'' \<mapsto> PStr ''demo'', ''displayName'' \<mapsto> PStr ''Demo'']"
  by (simp add: ex_mod example_changeset sanitize_cr_def)

lemma ex_san_realm: "sanitize_cr (example_realm n) = Inr (example_realm n)"
  by (simp add: example_realm_def sanitize_cr_def)

lemma ex_realm_nonempty: "example_realm n \<noteq> Map.empty"
  by (simp add: example_realm_def)

lemma ex_desired:
  "desired_realm (example_realm n) (changeset_of example_env (params (example_module st chk)))
     = example_realm ''Demo''"
  by (simp add: ex_mod example_changeset desired_realm_def example_realm_def fun_eq_iff map_add_def)

lemma ex_dict_eq: "dict_eq (example_realm n) (example_realm n') = (n = n')"
  by (auto simp: dict_eq_def py_eq_def example_realm_def fun_eq_iff)

theorem check_mode_never_mutates_witness:
  "check_mode (example_module (PStr ''absent'') True)
   \<and> filter mutating
        (calls (main example_env (example_module (PStr ''absent'') True)
                 (Some (example_realm ''Old'')))) = []
   \<and> remote (main example_env (example_module (PStr ''absent'') True)
               (Some (example_realm ''Old''))) = Some (example_realm ''Old'')"
  using check_mode_never_mutates
    [of "example_module (PStr ''absent'') True" example_env "Some (example_realm ''Old'')"]
  by (simp add: ex_mod)

theorem create_needs_id_witness:
  "starts example_env (example_module (PStr ''present'') False) None () None
   \<and> ''id'' \<notin> dom (changeset_of example_env (params (example_module (PStr ''present'') False)))
   \<and> status (main example_env (example_module (PStr ''present'') False) None)
       = Fail ''id needs to be specified when creating a new realm''
   \<and> calls (main example_env (example_module (PStr ''present'') False) None)
       = [GetRealm (PStr ''demo'')]"
proof -
  let ?m = "example_module (PStr ''present'') False"
  have s: "starts example_env ?m None () None" by (rule ex_starts)
  have b: "before_realm_of None = Map.empty" by (simp add: before_realm_of_def)
  have st: "params_get (params ?m) ''state'' \<noteq> PStr ''absent''" by (simp add: ex_mod ex_get)
  have i: "''id'' \<notin> dom (changeset_of example_env (params ?m))"
    by (simp add: ex_mod example_changeset)
  then have i': "''id'' \<notin> dom (desired_realm (before_realm_of None)
                     (changeset_of example_env (params ?m)))"
    by (simp add: b desired_realm_def)
  from create_needs_id [OF s b st ex_san_cs i'] s i show ?thesis
    by (simp add: ex_mod ex_get)
qed

theorem absent_absent_proposed_counterexample:
  "starts example_env (example_module (PStr ''absent'') False) None () None
   \<and> before_realm_of None = Map.empty
   \<and> params_get (params (example_module (PStr ''absent'') False)) ''state'' = PStr ''absent''
   \<and> status (main example_env (example_module (PStr ''absent'') False) None) = Exit
   \<and> proposed (result (main example_env (example_module (PStr ''absent'') False) None))
       \<noteq> Map.empty"
  by (simp add: ex_starts before_realm_of_def ex_mod ex_get ex_absent_absent)

theorem absent_absent_noop_witness:
  "starts example_env (example_module (PStr ''absent'') False) None () None
   \<and> status (main example_env (example_module (PStr ''absent'') False) None) = Exit
   \<and> changed (result (main example_env (example_module (PStr ''absent'') False) None)) = False
   \<and> proposed (result (main example_env (example_module (PStr ''absent'') False) None))
       = [''realm'' \<mapsto> PStr ''demo'', ''displayName'' \<mapsto> PStr ''Demo'']
   \<and> end_state (result (main example_env (example_module (PStr ''absent'') False) None))
       = Map.empty
   \<and> calls (main example_env (example_module (PStr ''absent'') False) None)
       = [GetRealm (PStr ''demo'')]"
proof -
  let ?m = "example_module (PStr ''absent'') False"
  have s: "starts example_env ?m None () None" by (rule ex_starts)
  have b: "before_realm_of None = Map.empty" by (simp add: before_realm_of_def)
  have st: "params_get (params ?m) ''state'' = PStr ''absent''" by (simp add: ex_mod ex_get)
  from absent_absent_noop [OF s b st ex_san_cs] s show ?thesis
    by (simp add: ex_mod ex_get)
qed

theorem update_changed_by_comparison_witness:
  "starts example_env (example_module (PStr ''present'') True) (Some (example_realm ''Old'')) ()
      (Some (example_realm ''Old''))
   \<and> changed (result (main example_env (example_module (PStr ''present'') True)
                        (Some (example_realm ''Old'')))) = True
   \<and> changed (result (main example_env (example_module (PStr ''present'') True)
                        (Some (example_realm ''Demo'')))) = False
   \<and> changed (result (main example_env (example_module (PStr ''present'') False)
                        (Some (example_realm ''Old'')))) = True
   \<and> changed (result (main example_env (example_module (PStr ''present'') False)
                        (Some (example_realm ''Demo'')))) = False
   \<and> status (main example_env (example_module (PStr ''present'') False)
                        (Some (example_realm ''Demo''))) = Exit
   \<and> filter mutating (calls (main example_env (example_module (PStr ''present'') False)
                        (Some (example_realm ''Demo''))))
       = [UpdateRealm (example_realm ''Demo'') (PStr ''demo'')]"
proof -
  have st: "params_get (params (example_module (PStr ''present'') chk)) ''state'' = PStr ''present''"
    for chk by (simp add: ex_mod ex_get)
  note inst = update_changed_by_comparison
    [OF ex_starts ex_realm_nonempty st ex_san_cs ex_san_realm, unfolded ex_desired]
  have san: "\<exists>s. sanitize_cr_opt (Some (example_realm ''Demo'')) = Inr s"
    by (simp add: sanitize_cr_opt_def ex_san_realm)
  have idd: "''id'' \<in> dom (example_realm ''Demo'')" by (simp add: example_realm_def)
  show ?thesis
    using inst [of True "''Old''"] inst [of True "''Demo''"]
      inst [of False "''Old''"] inst [of False "''Demo''"]
      san idd
    by (simp add: ex_mod ex_get ex_env ex_srv ex_dict_eq dict_eq_opt_def ex_starts)
qed

theorem delete_proposed_differs_witness:
  "starts example_env (example_module (PStr ''absent'') True) (Some (example_realm ''Old'')) ()
      (Some (example_realm ''Old''))
   \<and> ''id'' \<in> dom (example_realm ''Old'')
   \<and> status (main example_env (example_module (PStr ''absent'') True)
                         (Some (example_realm ''Old''))) = Exit
   \<and> proposed (result (main example_env (example_module (PStr ''absent'') True)
                         (Some (example_realm ''Old''))))
       = [''realm'' \<mapsto> PStr ''demo'', ''displayName'' \<mapsto> PStr ''Demo'']
   \<and> status (main example_env (example_module (PStr ''absent'') False)
                         (Some (example_realm ''Old''))) = Exit
   \<and> proposed (result (main example_env (example_module (PStr ''absent'') False)
                         (Some (example_realm ''Old'')))) = Map.empty
   \<and> starts example_env (null_id_module (PStr ''absent'') True) (Some (example_realm ''Old'')) ()
        (Some (example_realm ''Old''))
   \<and> changeset_of example_env (params (null_id_module (PStr ''absent'') True)) = Map.empty
   \<and> proposed (result (main example_env (null_id_module (PStr ''absent'') True)
                         (Some (example_realm ''Old'')))) = Map.empty
   \<and> proposed (result (main example_env (null_id_module (PStr ''absent'') False)
                         (Some (example_realm ''Old'')))) = Map.empty"
proof -
  have st: "params_get (params (example_module (PStr ''absent'') chk)) ''state'' \<noteq> PStr ''present''"
    for chk by (simp add: ex_mod ex_get)
  have idd: "''id'' \<in> dom (example_realm ''Old'')" by (simp add: example_realm_def)
  note inst = delete_proposed_differs [OF ex_starts idd st ex_san_cs ex_san_realm]
  have nst: "params_get (params (null_id_module (PStr ''absent'') chk)) ''state'' \<noteq> PStr ''present''"
    for chk by (simp add: null_mod null_get)
  have ncs: "sanitize_cr (changeset_of example_env (params (null_id_module (PStr ''absent'') chk)))
      = Inr Map.empty" for chk
    by (simp add: null_changeset sanitize_cr_empty)
  note ninst = delete_proposed_differs [OF null_starts idd nst ncs ex_san_realm]
  have a: "status (main example_env (example_module (PStr ''absent'') True)
                         (Some (example_realm ''Old''))) = Exit
   \<and> proposed (result (main example_env (example_module (PStr ''absent'') True)
                         (Some (example_realm ''Old''))))
       = [''realm'' \<mapsto> PStr ''demo'', ''displayName'' \<mapsto> PStr ''Demo'']"
    using inst [of True] by (simp add: ex_mod)
  have b: "status (main example_env (example_module (PStr ''absent'') False)
                         (Some (example_realm ''Old''))) = Exit
   \<and> proposed (result (main example_env (example_module (PStr ''absent'') False)
                         (Some (example_realm ''Old'')))) = Map.empty"
    using inst [of False] by (simp add: ex_mod ex_get ex_env ex_srv)
  have c: "proposed (result (main example_env (null_id_module (PStr ''absent'') True)
                         (Some (example_realm ''Old'')))) = Map.empty"
    using ninst [of True] by (simp add: null_mod)
  have d: "proposed (result (main example_env (null_id_module (PStr ''absent'') False)
                         (Some (example_realm ''Old'')))) = Map.empty"
    using ninst [of False] by (simp add: null_mod null_get ex_env ex_srv)
  from a b c d show ?thesis
    by (simp add: ex_starts null_starts idd null_changeset)
qed

section \<open>What the argument requirements give\<close>

lemma main_requirements_fail:
  "\<not> requirements_met (given m) \<Longrightarrow>
     main e m r0 = stop (Fail ''missing required arguments'') initial_result [] r0"
  by (simp add: main_def)

text \<open>
  C9, as amended. The requirement of line 687 names three arguments: a task that passes
  the requirements gives at least one of \<^verbatim>\<open>id\<close>, \<^verbatim>\<open>realm\<close> and \<^verbatim>\<open>enabled\<close>, a run
  whose task fails them ends before any call, and so a run that makes a call has one of
  the three given. The requirement does not force \<^verbatim>\<open>id\<close> or \<^verbatim>\<open>realm\<close>: with
  \<^verbatim>\<open>enabled\<close> alone the run goes on and fetches the realm named by \<^verbatim>\<open>None\<close>. And what
  is given may be \<^verbatim>\<open>null\<close>: a task with \<^verbatim>\<open>id: null\<close> passes too. Both are shown below.
\<close>

theorem requirements_one_of_three:
  "(requirements_met ks \<longrightarrow>
      supplied ks ''id'' \<or> supplied ks ''realm'' \<or> supplied ks ''enabled'')
   \<and> (\<not> requirements_met (given m) \<longrightarrow>
        (\<exists>err. status (main e m r0) = Fail err) \<and> calls (main e m r0) = [])
   \<and> (calls (main e m r0) \<noteq> [] \<longrightarrow>
        supplied (given m) ''id'' \<or> supplied (given m) ''realm''
        \<or> supplied (given m) ''enabled'')"
proof (intro conjI impI)
  show "supplied ks ''id'' \<or> supplied ks ''realm'' \<or> supplied ks ''enabled''"
    if "requirements_met ks"
    using that by (simp add: requirements_met_iff supplied_def)
  show "\<exists>err. status (main e m r0) = Fail err" if "\<not> requirements_met (given m)"
    by (simp add: main_requirements_fail [OF that] stop_def)
  show "calls (main e m r0) = []" if "\<not> requirements_met (given m)"
    by (simp add: main_requirements_fail [OF that] stop_def)
  show "supplied (given m) ''id'' \<or> supplied (given m) ''realm'' \<or> supplied (given m) ''enabled''"
    if c: "calls (main e m r0) \<noteq> []"
  proof (cases "requirements_met (given m)")
    case True
    then show ?thesis by (simp add: requirements_met_iff supplied_def)
  next
    case False
    with c show ?thesis by (simp add: main_requirements_fail stop_def)
  qed
qed

theorem requirements_one_of_three_witness:
  "requirements_met (given (example_module (PStr ''present'') False))
   \<and> supplied (given (example_module (PStr ''present'') False)) ''realm''
   \<and> requirements_met (given (null_id_module (PStr ''present'') False))
   \<and> supplied (given (null_id_module (PStr ''present'') False)) ''id''
   \<and> params_get (params (null_id_module (PStr ''present'') False)) ''id'' = PNone
   \<and> params_get (params (null_id_module (PStr ''present'') False)) ''realm'' = PNone
   \<and> params_get (params (null_id_module (PStr ''present'') False)) ''enabled'' = PNone
   \<and> calls (main example_env (example_module (PStr ''present'') False) None) \<noteq> []
   \<and> \<not> requirements_met (given \<lparr>given = [], params = [], check_mode = False, module_diff = False\<rparr>)
   \<and> (\<exists>err. status (main example_env
                \<lparr>given = [], params = [], check_mode = False, module_diff = False\<rparr> None) = Fail err)
   \<and> calls (main example_env
               \<lparr>given = [], params = [], check_mode = False, module_diff = False\<rparr> None) = []"
proof -
  have n: "\<not> requirements_met (given \<lparr>given = [], params = [], check_mode = False, module_diff = False\<rparr>)"
    by (simp add: requirements_met_iff)
  have c: "calls (main example_env (example_module (PStr ''present'') False) None) \<noteq> []"
    by (simp add: ex_main reconcile_def Let_def ex_mod ex_get example_changeset sanitize_cr_def
        before_realm_of_def desired_realm_def absent_path_def stop_def)
  have g: "supplied (given (example_module (PStr ''present'') False)) ''realm''"
    and i: "supplied (given (null_id_module (PStr ''present'') False)) ''id''"
    by (simp_all add: example_module_def null_id_module_def supplied_def)
  show ?thesis
    using requirements_one_of_three
      [of "given (example_module (PStr ''present'') False)"
          "\<lparr>given = [], params = [], check_mode = False, module_diff = False\<rparr>" example_env None]
      requirements_one_of_three
      [of "given (null_id_module (PStr ''present'') False)"
          "example_module (PStr ''present'') False" example_env None]
      n c g i
    by (simp add: ex_req null_req null_get null_mod)
qed

theorem requirements_id_or_realm_counterexample:
  "requirements_met (given (enabled_only_module True))
   \<and> \<not> supplied (given (enabled_only_module True)) ''id''
   \<and> \<not> supplied (given (enabled_only_module True)) ''realm''
   \<and> params_get (params (enabled_only_module True)) ''id'' = PNone
   \<and> params_get (params (enabled_only_module True)) ''realm'' = PNone
   \<and> calls (main example_env (enabled_only_module True) None) = [GetRealm PNone]"
proof -
  have r: "requirements_met (given (enabled_only_module True))"
    by (simp add: enabled_only_module_def requirements_met_iff)
  have n: "params_get (params (enabled_only_module True)) ''realm'' = PNone"
    "params_get (params (enabled_only_module True)) ''id'' = PNone"
    by (simp_all add: enabled_only_module_def params_get_def)
  have c: "check_mode (enabled_only_module True)"
    by (simp add: enabled_only_module_def)
  have "starts example_env (enabled_only_module True) None () None"
    by (simp add: starts_def r ex_env ex_srv)
  from main_starts [OF this]
  have "calls (main example_env (enabled_only_module True) None) = [GetRealm PNone]"
    by (simp add: reconcile_check [OF c] n)
  with r n show ?thesis by (simp add: supplied_def enabled_only_module_def)
qed

section \<open>Check mode against a real run\<close>

lemma starts_check_mode: "starts e (m\<lparr>check_mode := c\<rparr>) r0 h f = starts e m r0 h f"
  by (simp add: starts_def)

lemma main_not_started:
  assumes "\<And>h f. \<not> starts e m r0 h f"
  shows "main e (m\<lparr>check_mode := c\<rparr>) r0 = main e m r0"
proof (cases "requirements_met (given m)")
  case False
  then show ?thesis by (simp add: main_def)
next
  case True
  show ?thesis
  proof (cases "get_token e (params m)")
    case (Inl err)
    with True show ?thesis by (simp add: main_def)
  next
    case (Inr h)
    show ?thesis
    proof (cases "get_realm_by_id (KeycloakAPI e h) (params_get (params m) ''realm'') r0")
      case (Inl err)
      with True Inr show ?thesis by (simp add: main_def Let_def)
    next
      case (Inr f)
      with True \<open>get_token e (params m) = Inr h\<close> have "starts e m r0 h f"
        by (simp add: starts_def)
      with assms show ?thesis by blast
    qed
  qed
qed

lemma reconcile_not_sanitized:
  assumes "\<not> (\<exists>p bs. sanitize_cr (changeset_of e (params m)) = Inr p
              \<and> sanitize_cr (before_realm_of f) = Inr bs)"
  shows "reconcile e kc (m\<lparr>check_mode := c\<rparr>) f cs r0 = reconcile e kc m f cs r0"
proof (cases "sanitize_cr (changeset_of e (params m))")
  case (Inl x)
  then show ?thesis by (simp add: reconcile_def Let_def)
next
  case (Inr p)
  show ?thesis
  proof (cases "sanitize_cr (before_realm_of f)")
    case (Inl x)
    with Inr show ?thesis by (simp add: reconcile_def Let_def)
  next
    case (Inr bs)
    with \<open>sanitize_cr (changeset_of e (params m)) = Inr p\<close> assms show ?thesis by blast
  qed
qed

lemma absent_path_create_call:
  assumes "\<not> check_mode m" and "st \<noteq> PStr ''absent''" and "d ''id'' = Some v"
    and "sanitize_cr d = Inr ds"
  shows "CreateRealm d \<in> set (calls (absent_path kc m st d res cs r0))"
  using assms by (simp add: absent_path_def Let_def stop_def split: sum.splits)

lemma update_path_update_call:
  assumes "\<not> check_mode m"
  shows "UpdateRealm d realm \<in> set (calls (update_path kc m realm b bs d res cs r0))"
  using assms by (simp add: update_path_def Let_def stop_def split: sum.splits option.splits)

lemma delete_path_delete_call:
  assumes "\<not> check_mode m"
  shows "DeleteRealm realm \<in> set (calls (delete_path kc m realm b bs res cs r0))"
  using assms by (simp add: delete_path_def Let_def stop_def split: sum.splits option.splits)

lemma absent_path_fidelity:
  assumes s: "sanitize_cr d = Inr ds"
    and f: "\<And>c. c \<in> set (calls (absent_path kc (m\<lparr>check_mode := False\<rparr>) st d res cs r0))
              \<Longrightarrow> persists kc r0 c"
  shows "status (absent_path kc (m\<lparr>check_mode := True\<rparr>) st d res cs r0)
           = status (absent_path kc (m\<lparr>check_mode := False\<rparr>) st d res cs r0)
     \<and> changed (result (absent_path kc (m\<lparr>check_mode := True\<rparr>) st d res cs r0))
           = changed (result (absent_path kc (m\<lparr>check_mode := False\<rparr>) st d res cs r0))"
proof (cases "st = PStr ''absent''")
  case True
  then show ?thesis by (simp add: absent_path_def Let_def stop_def)
next
  case False
  show ?thesis
  proof (cases "d ''id''")
    case None
    with False show ?thesis by (simp add: absent_path_def Let_def stop_def)
  next
    case (Some v)
    have "\<not> check_mode (m\<lparr>check_mode := False\<rparr>)" by simp
    from f [OF absent_path_create_call [OF this False Some s]]
    have "persists kc r0 (CreateRealm d)" .
    with Some obtain r1 where c: "create_realm kc d r0 = Inr r1"
      and g: "get_realm_by_id kc v r1 = Inr (Some d)"
      by (auto split: sum.splits)
    from False Some c g s show ?thesis
      by (simp add: absent_path_def Let_def stop_def sanitize_cr_opt_def)
  qed
qed

lemma update_path_fidelity:
  assumes s: "sanitize_cr d = Inr ds" and i: "''id'' \<in> dom d"
    and f: "\<And>c. c \<in> set (calls (update_path kc (m\<lparr>check_mode := False\<rparr>) realm b bs d res cs r0))
              \<Longrightarrow> persists kc r0 c"
  shows "status (update_path kc (m\<lparr>check_mode := True\<rparr>) realm b bs d res cs r0)
           = status (update_path kc (m\<lparr>check_mode := False\<rparr>) realm b bs d res cs r0)
     \<and> changed (result (update_path kc (m\<lparr>check_mode := True\<rparr>) realm b bs d res cs r0))
           = changed (result (update_path kc (m\<lparr>check_mode := False\<rparr>) realm b bs d res cs r0))"
proof -
  have "\<not> check_mode (m\<lparr>check_mode := False\<rparr>)" by simp
  from f [OF update_path_update_call [OF this]]
  have "persists kc r0 (UpdateRealm d realm)" .
  then obtain r1 where u: "update_realm kc d realm r0 = Inr r1"
    and g: "get_realm_by_id kc realm r1 = Inr (Some d)"
    by (auto split: sum.splits)
  from i obtain v where v: "d ''id'' = Some v" by blast
  from u g v s show ?thesis
    by (simp add: update_path_def Let_def stop_def sanitize_cr_opt_def dict_eq_opt_def)
qed

lemma delete_path_fidelity:
  assumes i: "''id'' \<in> dom b"
    and f: "\<And>c. c \<in> set (calls (delete_path kc (m\<lparr>check_mode := False\<rparr>) realm b bs res cs r0))
              \<Longrightarrow> persists kc r0 c"
  shows "status (delete_path kc (m\<lparr>check_mode := True\<rparr>) realm b bs res cs r0)
           = status (delete_path kc (m\<lparr>check_mode := False\<rparr>) realm b bs res cs r0)
     \<and> changed (result (delete_path kc (m\<lparr>check_mode := True\<rparr>) realm b bs res cs r0))
           = changed (result (delete_path kc (m\<lparr>check_mode := False\<rparr>) realm b bs res cs r0))"
proof -
  have "\<not> check_mode (m\<lparr>check_mode := False\<rparr>)" by simp
  from f [OF delete_path_delete_call [OF this]]
  have "persists kc r0 (DeleteRealm realm)" .
  then obtain r1 where d: "delete_realm kc realm r0 = Inr r1"
    by (auto split: sum.splits)
  from i obtain v where v: "b ''id'' = Some v" by blast
  from d v show ?thesis
    by (simp add: delete_path_def Let_def stop_def)
qed

lemma reported_changed:
  assumes "status a = status b" and "changed (result a) = changed (result b)"
  shows "map_option changed (reported a) = map_option changed (reported b)"
  using assms by (simp add: reported_def)

text \<open>
  C4. A run in check mode and a real run with the same parameters, started from the same
  state of the server, report the same \<^verbatim>\<open>changed\<close>; more than that, the two runs end in
  the same way (both through \<^verbatim>\<open>exit_json\<close>, or both with the same failure) and with the
  same \<^verbatim>\<open>changed\<close>. Two things are assumed of the server. A realm it returns carries an
  \<^verbatim>\<open>'id'\<close>, as the realm representations of Keycloak do and as lines 794 and 813 take for
  granted. And it persists the write of the real run: the call is accepted from the state
  the run starts in, and the fetch that follows returns what was sent.
\<close>

theorem dry_run_fidelity:
  assumes i: "\<And>h b. starts e m r0 h (Some b) \<Longrightarrow> ''id'' \<in> dom b"
    and f: "\<And>h fetched c. starts e m r0 h fetched \<Longrightarrow>
              c \<in> set (calls (main e (m\<lparr>check_mode := False\<rparr>) r0)) \<Longrightarrow>
              persists (KeycloakAPI e h) r0 c"
  shows "map_option changed (reported (main e (m\<lparr>check_mode := True\<rparr>) r0))
           = map_option changed (reported (main e (m\<lparr>check_mode := False\<rparr>) r0))
       \<and> status (main e (m\<lparr>check_mode := True\<rparr>) r0)
           = status (main e (m\<lparr>check_mode := False\<rparr>) r0)
       \<and> changed (result (main e (m\<lparr>check_mode := True\<rparr>) r0))
           = changed (result (main e (m\<lparr>check_mode := False\<rparr>) r0))"
proof -
  have "status (main e (m\<lparr>check_mode := True\<rparr>) r0)
           = status (main e (m\<lparr>check_mode := False\<rparr>) r0)
       \<and> changed (result (main e (m\<lparr>check_mode := True\<rparr>) r0))
           = changed (result (main e (m\<lparr>check_mode := False\<rparr>) r0))"
  proof (cases "\<exists>h fetched. starts e m r0 h fetched")
    case False
    then have n: "\<And>h f. \<not> starts e m r0 h f" by blast
    have "main e (m\<lparr>check_mode := c\<rparr>) r0 = main e m r0" for c
      using n by (rule main_not_started)
    then show ?thesis by (simp only:)
  next
    case True
    then obtain h fetched where s: "starts e m r0 h fetched" by blast
    let ?kc = "KeycloakAPI e h"
    let ?cs = "changeset_of e (params m)"
    let ?b = "before_realm_of fetched"
    let ?d = "desired_realm ?b ?cs"
    let ?g = "[GetRealm (params_get (params m) ''realm'')]"
    have sc: "starts e (m\<lparr>check_mode := c\<rparr>) r0 h fetched" for c
      using s by (simp add: starts_check_mode)
    have m: "main e (m\<lparr>check_mode := c\<rparr>) r0 = reconcile e ?kc (m\<lparr>check_mode := c\<rparr>) fetched ?g r0"
      for c using main_starts [OF sc [of c]] by simp
    have pw: "persists ?kc r0 c"
      if "c \<in> set (calls (reconcile e ?kc (m\<lparr>check_mode := False\<rparr>) fetched ?g r0))" for c
    proof (rule f [OF s])
      from that show "c \<in> set (calls (main e (m\<lparr>check_mode := False\<rparr>) r0))"
        by (simp only: m)
    qed
    show ?thesis
    proof (cases "\<exists>p bs. sanitize_cr ?cs = Inr p \<and> sanitize_cr ?b = Inr bs")
      case False
      have "reconcile e ?kc (m\<lparr>check_mode := c\<rparr>) fetched ?g r0 = reconcile e ?kc m fetched ?g r0"
        for c by (rule reconcile_not_sanitized [OF False])
      then show ?thesis
        unfolding m by (simp only:)
    next
      case True
      then obtain p bs where p: "sanitize_cr ?cs = Inr p" and bs: "sanitize_cr ?b = Inr bs"
        by blast
      obtain ds where ds: "sanitize_cr ?d = Inr ds"
        using sanitize_cr_desired [OF bs p] by blast
      have r: "reconcile e ?kc (m\<lparr>check_mode := c\<rparr>) fetched ?g r0 =
         (if ?b = Map.empty then
            absent_path ?kc (m\<lparr>check_mode := c\<rparr>) (params_get (params m) ''state'') ?d
              (initial_result\<lparr>proposed := p, existing := bs\<rparr>) ?g r0
          else if params_get (params m) ''state'' = PStr ''present'' then
            update_path ?kc (m\<lparr>check_mode := c\<rparr>) (params_get (params m) ''realm'') ?b bs ?d
              (initial_result\<lparr>proposed := p, existing := bs\<rparr>) ?g r0
          else
            delete_path ?kc (m\<lparr>check_mode := c\<rparr>) (params_get (params m) ''realm'') ?b bs
              (initial_result\<lparr>proposed := p, existing := bs\<rparr>) ?g r0)" for c
        using reconcile_sanitized [of e "m\<lparr>check_mode := c\<rparr>" p fetched bs ?kc ?g r0] p bs
        by simp
      show ?thesis
      proof (cases "?b = Map.empty")
        case True
        have ra: "reconcile e ?kc (m\<lparr>check_mode := c\<rparr>) fetched ?g r0 =
            absent_path ?kc (m\<lparr>check_mode := c\<rparr>) (params_get (params m) ''state'') ?d
              (initial_result\<lparr>proposed := p, existing := bs\<rparr>) ?g r0" for c
          using True by (simp add: r)
        have "persists ?kc r0 c"
          if "c \<in> set (calls (absent_path ?kc (m\<lparr>check_mode := False\<rparr>)
                    (params_get (params m) ''state'') ?d
                    (initial_result\<lparr>proposed := p, existing := bs\<rparr>) ?g r0))" for c
          using that by (intro pw) (simp only: ra)
        from absent_path_fidelity [OF ds this] show ?thesis
          by (simp only: m ra)
      next
        case False
        then obtain b where fb: "fetched = Some b" and b: "?b = b"
          by (cases fetched) (simp_all add: before_realm_of_def)
        from s fb have "starts e m r0 h (Some b)" by simp
        from i [OF this] b have idb: "''id'' \<in> dom ?b" by simp
        show ?thesis
        proof (cases "params_get (params m) ''state'' = PStr ''present''")
          case True
          from idb have idd: "''id'' \<in> dom ?d" by (auto simp: desired_realm_def)
          have ru: "reconcile e ?kc (m\<lparr>check_mode := c\<rparr>) fetched ?g r0 =
              update_path ?kc (m\<lparr>check_mode := c\<rparr>) (params_get (params m) ''realm'') ?b bs ?d
                (initial_result\<lparr>proposed := p, existing := bs\<rparr>) ?g r0" for c
            using False True by (simp add: r)
          have "persists ?kc r0 c"
            if "c \<in> set (calls (update_path ?kc (m\<lparr>check_mode := False\<rparr>)
                      (params_get (params m) ''realm'') ?b bs ?d
                      (initial_result\<lparr>proposed := p, existing := bs\<rparr>) ?g r0))" for c
            using that by (intro pw) (simp only: ru)
          from update_path_fidelity [OF ds idd this] show ?thesis
            by (simp only: m ru)
        next
          case st: False
          have rd: "reconcile e ?kc (m\<lparr>check_mode := c\<rparr>) fetched ?g r0 =
              delete_path ?kc (m\<lparr>check_mode := c\<rparr>) (params_get (params m) ''realm'') ?b bs
                (initial_result\<lparr>proposed := p, existing := bs\<rparr>) ?g r0" for c
            using False st by (simp add: r)
          have "persists ?kc r0 c"
            if "c \<in> set (calls (delete_path ?kc (m\<lparr>check_mode := False\<rparr>)
                      (params_get (params m) ''realm'') ?b bs
                      (initial_result\<lparr>proposed := p, existing := bs\<rparr>) ?g r0))" for c
            using that by (intro pw) (simp only: rd)
          from delete_path_fidelity [OF idb this] show ?thesis
            by (simp only: m rd)
        qed
      qed
    qed
  qed
  then have st: "status (main e (m\<lparr>check_mode := True\<rparr>) r0)
                   = status (main e (m\<lparr>check_mode := False\<rparr>) r0)"
    and ch: "changed (result (main e (m\<lparr>check_mode := True\<rparr>) r0))
                   = changed (result (main e (m\<lparr>check_mode := False\<rparr>) r0))"
    by blast+
  show ?thesis
    by (intro conjI) (rule reported_changed [OF st ch], rule st, rule ch)
qed

lemma ex_check_mode:
  "(example_module st chk)\<lparr>check_mode := c\<rparr> = example_module st c"
  by (simp add: example_module_def)

lemma ex_update_real:
  "main example_env (example_module (PStr ''present'') False) (Some (example_realm n)) =
     \<lparr>status = Exit,
      result = \<lparr>changed = (n \<noteq> ''Demo''),
                msg = Format ''Realm %s has been updated.'' (PStr ''demo''),
                diff = Map.empty,
                proposed = [''realm'' \<mapsto> PStr ''demo'', ''displayName'' \<mapsto> PStr ''Demo''],
                existing = example_realm n, end_state = example_realm ''Demo''\<rparr>,
      calls = [GetRealm (PStr ''demo''), UpdateRealm (example_realm ''Demo'') (PStr ''demo''),
               GetRealm (PStr ''demo'')],
      remote = Some (example_realm ''Demo'')\<rparr>"
proof -
  have st: "params_get (params (example_module (PStr ''present'') False)) ''state'' = PStr ''present''"
    by (simp add: ex_mod ex_get)
  have i: "example_realm ''Demo'' ''id'' = Some (PStr ''demo'')"
    by (simp add: example_realm_def)
  have "main example_env (example_module (PStr ''present'') False) (Some (example_realm n)) =
      update_path one_realm_server (example_module (PStr ''present'') False) (PStr ''demo'')
        (example_realm n) (example_realm n) (example_realm ''Demo'')
        (initial_result\<lparr>proposed := [''realm'' \<mapsto> PStr ''demo'', ''displayName'' \<mapsto> PStr ''Demo''],
                          existing := example_realm n\<rparr>)
        [GetRealm (PStr ''demo'')] (Some (example_realm n))"
    using main_update [OF ex_starts ex_realm_nonempty st ex_san_cs ex_san_realm]
    by (simp add: ex_get ex_env ex_desired [of _ _ False]) (simp add: ex_mod ex_get)
  then show ?thesis
    by (simp add: update_path_def ex_mod ex_srv Let_def stop_def sanitize_cr_opt_def ex_san_realm
        dict_eq_opt_def ex_dict_eq i initial_result_def)
qed

theorem dry_run_fidelity_witness:
  "''id'' \<in> dom (example_realm ''Old'')
   \<and> calls (main example_env (example_module (PStr ''present'') False)
              (Some (example_realm ''Old'')))
       = [GetRealm (PStr ''demo''), UpdateRealm (example_realm ''Demo'') (PStr ''demo''),
          GetRealm (PStr ''demo'')]
   \<and> persists one_realm_server (Some (example_realm ''Old''))
        (UpdateRealm (example_realm ''Demo'') (PStr ''demo''))
   \<and> map_option changed (reported (main example_env (example_module (PStr ''present'') True)
                                       (Some (example_realm ''Old'')))) = Some True
   \<and> map_option changed (reported (main example_env (example_module (PStr ''present'') False)
                                       (Some (example_realm ''Old'')))) = Some True
   \<and> map_option changed (reported (main example_env (example_module (PStr ''present'') True)
                                       (Some (example_realm ''Demo'')))) = Some False
   \<and> map_option changed (reported (main example_env (example_module (PStr ''present'') False)
                                       (Some (example_realm ''Demo'')))) = Some False"
proof -
  let ?m = "example_module (PStr ''present'') False"
  have idd: "''id'' \<in> dom (example_realm n)" for n by (simp add: example_realm_def)
  have i: "''id'' \<in> dom b" if "starts example_env ?m (Some (example_realm n)) h (Some b)"
    for h b n
  proof -
    from that have "b = example_realm n" by (simp add: starts_def ex_env ex_srv)
    then show ?thesis by (simp add: idd)
  qed
  have p: "persists one_realm_server (Some (example_realm n))
        (UpdateRealm (example_realm ''Demo'') (PStr ''demo''))" for n
    by (simp add: ex_srv)
  have f: "persists (KeycloakAPI example_env h) (Some (example_realm n)) c"
    if "c \<in> set (calls (main example_env (?m\<lparr>check_mode := False\<rparr>) (Some (example_realm n))))"
    for h c n
    using that p [of n] by (auto simp: ex_check_mode ex_update_real ex_env)
  have eq: "map_option changed (reported (main example_env (?m\<lparr>check_mode := True\<rparr>)
                                            (Some (example_realm n))))
          = map_option changed (reported (main example_env (?m\<lparr>check_mode := False\<rparr>)
                                            (Some (example_realm n))))" for n
    by (rule dry_run_fidelity [of example_env ?m "Some (example_realm n)", OF i f, THEN conjunct1])
  have r: "map_option changed (reported (main example_env ?m (Some (example_realm n))))
      = Some (n \<noteq> ''Demo'')" for n
    by (simp add: ex_update_real reported_def)
  from eq [of "''Old''"] eq [of "''Demo''"] r [of "''Old''"] r [of "''Demo''"] p [of "''Old''"]
  show ?thesis
    by (simp add: ex_check_mode idd ex_update_real)
qed

section \<open>The sanitizer on the store\<close>

lemma sanitize_cr_heap_frame:
  assumes "sanitize_cr_heap a h = Inr (r, h')"
  shows "take (length h) h' = h \<and> length h \<le> r \<and> r < length h'"
  using assms
  by (auto simp: sanitize_cr_heap_def alloc_def Let_def
      split: option.splits hobj.splits sum.splits if_splits hval.splits)

lemma obj_at_prefix:
  assumes "take (length h) h' = h" and "a < length h"
  shows "obj_at h' a = obj_at h a"
proof -
  from assms(1) have "length (take (length h) h') = length h" by simp
  then have l: "length h \<le> length h'" by simp
  have "h' ! a = take (length h) h' ! a" using assms(2) by simp
  with assms l show ?thesis by (simp add: obj_at_def)
qed

lemma closed_obj:
  assumes "closed h" and "obj_at h a = Some ob"
  shows "case ob of HDict d \<Rightarrow> (\<forall>v \<in> ran d. ref_ok h v) | HList xs \<Rightarrow> (\<forall>v \<in> set xs. ref_ok h v)"
proof -
  from assms(2) have "ob \<in> set h"
    by (auto simp: obj_at_def split: if_splits)
  with assms(1) show ?thesis unfolding closed_def by blast
qed

lemma read_val_prefix:
  assumes c: "closed h" and p: "take (length h) h' = h"
  shows "ref_ok h v \<Longrightarrow> read_val n h' v = read_val n h v"
proof (induction n arbitrary: v)
  case 0
  then show ?case by (cases v) simp_all
next
  case (Suc n)
  show ?case
  proof (cases v)
    case (HRef a)
    with Suc.prems have a: "a < length h" by (simp add: ref_ok_def)
    then obtain ob where ob: "obj_at h a = Some ob" by (simp add: obj_at_def)
    have ob': "obj_at h' a = Some ob" using obj_at_prefix [OF p a] ob by simp
    show ?thesis
    proof (cases ob)
      case (HDict d)
      from closed_obj [OF c ob] HDict have r: "\<forall>v \<in> ran d. ref_ok h v" by simp
      have "map_option (read_val n h') (d k) = map_option (read_val n h) (d k)" for k
      proof (cases "d k")
        case None
        then show ?thesis by simp
      next
        case (Some w)
        then have "w \<in> ran d" by (auto simp: ran_def)
        with r have "ref_ok h w" by blast
        with Some show ?thesis by (simp add: Suc.IH)
      qed
      with HRef ob ob' HDict show ?thesis by simp
    next
      case (HList xs)
      from closed_obj [OF c ob] HList have r: "\<forall>v \<in> set xs. ref_ok h v" by simp
      then have "map (read_val n h') xs = map (read_val n h) xs"
        by (simp add: Suc.IH)
      with HRef ob ob' HList show ?thesis by simp
    qed
  qed simp_all
qed

lemma read_val_str: "(read_val n h v = PStr s) = (v = HStr s)"
  by (cases v; cases n) (auto split: option.splits hobj.splits)

lemma read_val_str_image: "(PStr s \<in> read_val n h ` set xs) = (HStr s \<in> set xs)"
proof
  assume "PStr s \<in> read_val n h ` set xs"
  then obtain v where "v \<in> set xs" and "read_val n h v = PStr s" by auto
  then show "HStr s \<in> set xs" by (simp add: read_val_str)
next
  assume "HStr s \<in> set xs"
  then have "read_val n h (HStr s) \<in> read_val n h ` set xs" by (rule imageI)
  then show "PStr s \<in> read_val n h ` set xs" by simp
qed

lemma read_values_prefix:
  assumes c: "closed h" and ob: "obj_at h a = Some (HDict d)" and p: "take (length h) h' = h"
  shows "map_option (read_val n h') (d k) = map_option (read_val n h) (d k)"
proof (cases "d k")
  case None
  then show ?thesis by simp
next
  case (Some w)
  then have "w \<in> ran d" by (auto simp: ran_def)
  with closed_obj [OF c ob] have "ref_ok h w" by simp
  with Some show ?thesis by (simp add: read_val_prefix [OF c p])
qed

lemma obj_at_append:
  "a < length h \<Longrightarrow> obj_at (h @ xs) a = obj_at h a"
  "obj_at (h @ x # xs) (length h) = Some x"
  "obj_at (h @ [x, y]) (Suc (length h)) = Some y"
  by (simp_all add: obj_at_def nth_append)

text \<open>What the function returns, case by case.\<close>

lemma sanitize_cr_heap_plain:
  assumes "obj_at h a = Some (HDict d)" and "d ''attributes'' = None"
  shows "sanitize_cr_heap a h = Inr (length h, h @ [HDict (secret_redacted d)])"
  using assms by (simp add: sanitize_cr_heap_def alloc_def secret_redacted_def)

lemma heap_in_append:
  assumes "heap_in k v h = Inr found"
  shows "heap_in k v (h @ xs) = Inr found"
  using assms
  by (auto simp: heap_in_def obj_at_def nth_append split: hval.splits if_splits)

lemma sanitize_cr_heap_not_found:
  assumes "obj_at h a = Some (HDict d)" and "d ''attributes'' = Some v"
    and "heap_in private_key v h = Inr False"
  shows "sanitize_cr_heap a h = Inr (length h, h @ [HDict (secret_redacted d)])"
proof (cases "''secret'' \<in> dom d")
  case True
  with assms(1,2) heap_in_append [OF assms(3)] show ?thesis
    by (simp add: sanitize_cr_heap_def alloc_def secret_redacted_def Let_def)
next
  case False
  with assms(1,2) heap_in_append [OF assms(3)] show ?thesis
    by (simp add: sanitize_cr_heap_def alloc_def secret_redacted_def Let_def)
qed

lemma sanitize_cr_heap_found:
  assumes "obj_at h a = Some (HDict d)" and "d ''attributes'' = Some (HRef b)"
    and "obj_at h b = Some (HDict ad)" and "private_key \<in> dom ad"
  shows "sanitize_cr_heap a h =
     Inr (length h,
          h @ [HDict ((secret_redacted d)(''attributes'' \<mapsto> HRef (Suc (length h)))),
               HDict (ad(private_key \<mapsto> HStr ''********''))])"
proof -
  from assms(3) have b: "b < length h" by (simp add: obj_at_def split: if_splits)
  have o: "obj_at (h @ xs) b = Some (HDict ad)" for xs
    using assms(3) b by (simp add: obj_at_append)
  have "heap_in private_key (HRef b) h = Inr True"
    using assms(3,4) by (simp add: heap_in_def)
  note i = heap_in_append [OF this]
  have u: "(h @ [x, HDict ad]) [length h := y, Suc (length h) := z] = h @ [y, z]" for x y z
    by (simp add: list_update_append)
  show ?thesis
  proof (cases "''secret'' \<in> dom d")
    case True
    with assms(1,2) i o u show ?thesis
      by (simp add: sanitize_cr_heap_def alloc_def secret_redacted_def Let_def)
  next
    case False
    with assms(1,2) i o u show ?thesis
      by (simp add: sanitize_cr_heap_def alloc_def secret_redacted_def Let_def)
  qed
qed

lemma sanitize_cr_heap_raises:
  assumes "obj_at h a = Some (HDict d)" and "d ''attributes'' = Some v"
    and "heap_in private_key v h = Inl x" and "ref_ok h v"
  shows "sanitize_cr_heap a h = Inl x"
proof -
  from assms(3,4) have v: "v = HNone \<or> (\<exists>b. v = HBool b) \<or> (\<exists>i. v = HInt i)" and x: "x = TypeError"
    by (auto simp: heap_in_def ref_ok_def obj_at_def split: hval.splits hobj.splits if_splits)
  then have "heap_in private_key v h' = Inl x" for h'
    by (auto simp: heap_in_def)
  with assms(1,2) show ?thesis
    by (cases "''secret'' \<in> dom d") (simp_all add: sanitize_cr_heap_def alloc_def Let_def)
qed

lemma sanitize_cr_heap_found_list:
  assumes "obj_at h a = Some (HDict d)" and "d ''attributes'' = Some (HRef b)"
    and "obj_at h b = Some (HList xs)" and "HStr private_key \<in> set xs"
  shows "sanitize_cr_heap a h = Inl TypeError"
proof -
  from assms(3) have b: "b < length h" by (simp add: obj_at_def split: if_splits)
  have o: "obj_at (h @ ys) b = Some (HList xs)" for ys
    using assms(3) b by (simp add: obj_at_append)
  have "heap_in private_key (HRef b) h = Inr True"
    using assms(3,4) by (simp add: heap_in_def)
  note i = heap_in_append [OF this]
  from assms(1,2) i o show ?thesis
    by (cases "''secret'' \<in> dom d") (simp_all add: sanitize_cr_heap_def alloc_def Let_def)
qed

lemma sanitize_cr_heap_found_str:
  assumes "obj_at h a = Some (HDict d)" and "d ''attributes'' = Some (HStr s)"
    and "str_contains s private_key"
  shows "sanitize_cr_heap a h = Inl AttributeError"
proof -
  have "heap_in private_key (HStr s) h' = Inr True" for h'
    using assms(3) by (simp add: heap_in_def)
  with assms(1,2) show ?thesis
    by (cases "''secret'' \<in> dom d") (simp_all add: sanitize_cr_heap_def alloc_def Let_def)
qed

text \<open>Reading the two objects the function made.\<close>

lemma take_append_same: "take (length h) (h @ xs) = h"
  by simp

lemma read_plain:
  assumes c: "closed h" and ob: "obj_at h a = Some (HDict d)"
  shows "read_dict m (h @ [HDict (secret_redacted d)]) (length h) =
     (if ''secret'' \<in> dom d
      then (\<lambda>k. map_option (read_val m h) (d k))(''secret'' \<mapsto> redacted)
      else (\<lambda>k. map_option (read_val m h) (d k)))"
proof -
  note p = read_values_prefix [OF c ob take_append_same]
  show ?thesis
    by (rule ext) (simp add: read_dict_def obj_at_append secret_redacted_def p redacted_def)
qed

lemma read_found:
  assumes c: "closed h" and ob: "obj_at h a = Some (HDict d)"
    and ab: "obj_at h b = Some (HDict ad)"
  shows "read_dict (Suc n)
           (h @ [HDict ((secret_redacted d)(''attributes'' \<mapsto> HRef (Suc (length h)))),
                 HDict (ad(private_key \<mapsto> HStr ''********''))]) (length h) =
     (if ''secret'' \<in> dom d
      then (\<lambda>k. map_option (read_val (Suc n) h) (d k))(''secret'' \<mapsto> redacted)
      else (\<lambda>k. map_option (read_val (Suc n) h) (d k)))
     (''attributes'' \<mapsto> PDict ((\<lambda>k. map_option (read_val n h) (ad k))(private_key \<mapsto> redacted)))"
proof -
  let ?h = "h @ [HDict ((secret_redacted d)(''attributes'' \<mapsto> HRef (Suc (length h)))),
                 HDict (ad(private_key \<mapsto> HStr ''********''))]"
  note p = read_values_prefix [OF c ob take_append_same]
  note q = read_values_prefix [OF c ab take_append_same]
  have att: "read_val (Suc n) (h @ [x, HDict (ad(private_key \<mapsto> HStr ''********''))])
                (HRef (Suc (length h)))
          = PDict ((\<lambda>k. map_option (read_val n h) (ad k))(private_key \<mapsto> PStr ''********''))"
    for x
  proof -
    have "(\<lambda>k. map_option (read_val n (h @ [x, HDict (ad(private_key \<mapsto> HStr ''********''))]))
                 ((ad(private_key \<mapsto> HStr ''********'')) k))
          = (\<lambda>k. map_option (read_val n h) (ad k))(private_key \<mapsto> PStr ''********'')"
      by (rule ext) (simp add: q)
    then show ?thesis by (simp add: obj_at_append)
  qed
  show ?thesis
    by (rule ext)
       (simp add: read_dict_def obj_at_append secret_redacted_def p redacted_def att
          del: read_val.simps(6))
qed

lemma sanitize_cr_heap_refines:
  assumes c: "closed h" and ob: "obj_at h a = Some (HDict d)"
  shows "read_result (Suc n) (sanitize_cr_heap a h) = sanitize_cr (read_dict (Suc n) h a)"
proof -
  let ?D = "\<lambda>k. map_option (read_val (Suc n) h) (d k)"
  let ?S = "if ''secret'' \<in> dom d then ?D(''secret'' \<mapsto> redacted) else ?D"
  have D: "read_dict (Suc n) h a = ?D" by (simp add: read_dict_def ob)
  have sec: "(''secret'' \<in> dom ?D) = (''secret'' \<in> dom d)" by (auto simp: dom_def)
  have att: "?S ''attributes'' = map_option (read_val (Suc n) h) (d ''attributes'')" by simp
  have val: "sanitize_cr ?D =
     (case map_option (read_val (Suc n) h) (d ''attributes'') of
        None \<Rightarrow> Inr ?S
      | Some attributes \<Rightarrow>
          (case py_in private_key attributes of
             Inl x \<Rightarrow> Inl x
           | Inr found \<Rightarrow>
               if found then
                 (case attributes of
                    PDict a \<Rightarrow> Inr (?S(''attributes'' \<mapsto> PDict (a(private_key \<mapsto> redacted))))
                  | PList xs \<Rightarrow> Inl TypeError
                  | _ \<Rightarrow> Inl AttributeError)
               else Inr ?S))"
    unfolding sanitize_cr_def Let_def sec att [symmetric] by (simp split: if_splits)
  show ?thesis
  proof (cases "d ''attributes''")
    case None
    then show ?thesis
      by (simp add: D val sanitize_cr_heap_plain [OF ob None] read_result_def read_plain [OF c ob])
  next
    case (Some v)
    then have "v \<in> ran d" by (auto simp: ran_def)
    with closed_obj [OF c ob] have rv: "ref_ok h v" by simp
    show ?thesis
    proof (cases "heap_in private_key v h")
      case (Inl x)
      with rv have "py_in private_key (read_val (Suc n) h v) = Inl x"
        by (auto simp: heap_in_def py_in_def ref_ok_def obj_at_def
            split: hval.splits hobj.splits if_splits)
      with Some show ?thesis
        by (simp add: D val sanitize_cr_heap_raises [OF ob Some Inl rv] read_result_def)
    next
      case (Inr found)
      with rv have pin: "py_in private_key (read_val (Suc n) h v) = Inr found"
        by (auto simp: heap_in_def py_in_def ref_ok_def obj_at_def read_val_str_image dom_def
            split: hval.splits hobj.splits if_splits)
      show ?thesis
      proof (cases found)
        case False
        with Inr have nf: "heap_in private_key v h = Inr False" by simp
        from Some pin False show ?thesis
          by (simp add: D val sanitize_cr_heap_not_found [OF ob Some nf] read_result_def
              read_plain [OF c ob])
      next
        case True
        show ?thesis
        proof (cases v)
          case (HStr s)
          with Inr True have "str_contains s private_key" by (simp add: heap_in_def)
          from sanitize_cr_heap_found_str [OF ob Some [unfolded HStr] this] Some pin True HStr
          show ?thesis by (simp add: D val read_result_def)
        next
          case (HRef b)
          with rv have b: "b < length h" by (simp add: ref_ok_def)
          then obtain ob2 where ob2: "obj_at h b = Some ob2" by (simp add: obj_at_def)
          show ?thesis
          proof (cases ob2)
            case (HDict ad)
            from Inr True HRef ob2 HDict have k: "private_key \<in> dom ad"
              by (simp add: heap_in_def)
            from sanitize_cr_heap_found [OF ob Some [unfolded HRef] ob2 [unfolded HDict] k]
              Some pin True HRef ob2 HDict
            show ?thesis
              by (simp add: D val read_result_def read_found [OF c ob ob2 [unfolded HDict]]
                  del: read_val.simps)
                 (simp)
          next
            case (HList xs)
            from Inr True HRef ob2 HList have k: "HStr private_key \<in> set xs"
              by (simp add: heap_in_def)
            from sanitize_cr_heap_found_list [OF ob Some [unfolded HRef] ob2 [unfolded HList] k]
              Some pin True HRef ob2 HList
            show ?thesis by (simp add: D val read_result_def)
          qed
        qed (use Inr True in \<open>simp_all add: heap_in_def\<close>)
      qed
    qed
  qed
qed

section \<open>Every representation in the result is sanitized\<close>

lemma is_sanitized_empty: "is_sanitized Map.empty"
  by (simp add: is_sanitized_def)

lemma result_sanitized_initial: "result_sanitized initial_result"
  by (simp add: result_sanitized_def initial_result_def is_sanitized_empty side_sanitized_def)

lemma result_sanitized_updates:
  "result_sanitized (res\<lparr>changed := c\<rparr>) = result_sanitized res"
  "result_sanitized (res\<lparr>msg := t\<rparr>) = result_sanitized res"
  "result_sanitized res \<Longrightarrow> is_sanitized s \<Longrightarrow> result_sanitized (res\<lparr>proposed := s\<rparr>)"
  "result_sanitized res \<Longrightarrow> is_sanitized s \<Longrightarrow> result_sanitized (res\<lparr>existing := s\<rparr>)"
  "result_sanitized res \<Longrightarrow> is_sanitized s \<Longrightarrow> result_sanitized (res\<lparr>end_state := s\<rparr>)"
  "result_sanitized res \<Longrightarrow> side_sanitized (Some b) \<Longrightarrow> side_sanitized (Some a) \<Longrightarrow>
     result_sanitized (res\<lparr>diff := before_after b a\<rparr>)"
  by (simp_all add: result_sanitized_def before_after_def)

lemma side_sanitized_simps:
  "side_sanitized (Some (PStr t))"
  "side_sanitized (Some (PDict d)) = is_sanitized d"
  by (simp_all add: side_sanitized_def)

lemma sanitize_cr_opt_is_sanitized: "sanitize_cr_opt x = Inr s \<Longrightarrow> is_sanitized s"
  by (cases x) (simp_all add: sanitize_cr_opt_def sanitize_cr_is_sanitized)

lemmas sanitized_intros = result_sanitized_updates side_sanitized_simps is_sanitized_empty
  sanitize_cr_is_sanitized sanitize_cr_opt_is_sanitized

lemma absent_path_sanitized:
  assumes "result_sanitized res"
  shows "result_sanitized (result (absent_path kc m st d res cs r0))"
  using assms
  by (auto simp: absent_path_def Let_def stop_def sanitized_intros
      split: option.splits sum.splits)

lemma update_path_sanitized:
  assumes "result_sanitized res" and "is_sanitized bs"
  shows "result_sanitized (result (update_path kc m realm b bs d res cs r0))"
  using assms
  by (auto simp: update_path_def Let_def stop_def sanitized_intros
      split: option.splits sum.splits)

lemma delete_path_sanitized:
  assumes "result_sanitized res" and "is_sanitized bs"
  shows "result_sanitized (result (delete_path kc m realm b bs res cs r0))"
  using assms
  by (auto simp: delete_path_def Let_def stop_def sanitized_intros
      split: option.splits sum.splits)

lemma reconcile_sanitized_result:
  "result_sanitized (result (reconcile e kc m f cs r0))"
  by (auto simp: reconcile_def Let_def stop_def result_sanitized_initial sanitized_intros
      absent_path_sanitized update_path_sanitized delete_path_sanitized
      split: sum.splits)

lemma main_sanitized_result: "result_sanitized (result (main e m r0))"
  by (auto simp: main_def Let_def stop_def result_sanitized_initial reconcile_sanitized_result
      split: sum.splits)

section \<open>The signing-key example, evaluated\<close>

lemma key_mod:
  "params (key_module chk) = key_params"
  "check_mode (key_module chk) = chk"
  "module_diff (key_module chk) = True"
  by (simp_all add: key_module_def)

lemma key_get:
  "params_get key_params ''realm'' = PStr ''demo''"
  "params_get key_params ''state'' = PStr ''present''"
  by (simp_all add: key_params_def params_get_def)

lemma key_req: "requirements_met (given (key_module chk))"
  by (simp add: key_module_def requirements_met_iff)

lemma key_changeset:
  "changeset_of example_env key_params =
     [''realm'' \<mapsto> PStr ''demo'', ''attributes'' \<mapsto> PDict [private_key \<mapsto> PStr ''NEW'']]"
  by (simp add: changeset_of_def example_env_def key_params_def realm_params_def
      build_changeset_def params_get_def upper_def)

lemma key_starts: "starts example_env (key_module chk) r0 () r0"
  by (simp add: starts_def key_req) (simp add: key_mod key_get ex_env ex_srv)

lemma key_san_cs:
  "sanitize_cr (changeset_of example_env (params (key_module chk))) =
     Inr [''realm'' \<mapsto> PStr ''demo'', ''attributes'' \<mapsto> PDict [private_key \<mapsto> redacted]]"
  by (simp add: key_mod key_changeset sanitize_cr_def py_in_def Let_def)

lemma key_san_realm:
  "sanitize_cr key_realm = Inr (key_realm(''attributes'' \<mapsto> PDict [private_key \<mapsto> redacted]))"
  by (simp add: key_realm_def sanitize_cr_def py_in_def Let_def)

lemma key_realm_nonempty: "key_realm \<noteq> Map.empty"
  by (simp add: key_realm_def)

lemma key_desired:
  "desired_realm key_realm (changeset_of example_env (params (key_module chk))) =
     key_realm(''attributes'' \<mapsto> PDict [private_key \<mapsto> PStr ''NEW''])"
  by (simp add: key_mod key_changeset desired_realm_def key_realm_def fun_eq_iff map_add_def)

lemma key_changed:
  "\<not> dict_eq key_realm (key_realm(''attributes'' \<mapsto> PDict [private_key \<mapsto> PStr ''NEW'']))"
proof
  assume "dict_eq key_realm (key_realm(''attributes'' \<mapsto> PDict [private_key \<mapsto> PStr ''NEW'']))"
  then have "(map_option py_norm \<circ> key_realm) ''attributes''
      = (map_option py_norm \<circ> (key_realm(''attributes'' \<mapsto> PDict [private_key \<mapsto> PStr ''NEW'']))) ''attributes''"
    by (simp add: dict_eq_def py_eq_def)
  then have "(map_option py_norm \<circ> [private_key \<mapsto> PStr ''OLD'']) private_key
      = (map_option py_norm \<circ> [private_key \<mapsto> PStr ''NEW'']) private_key"
    by (simp add: key_realm_def)
  then show False by simp
qed

lemma key_heap_closed: "closed key_heap"
  by (simp add: closed_def key_heap_def ref_ok_def ran_def)
     (auto split: if_splits simp: ref_ok_def)

lemma key_heap_reads: "read_dict (Suc (Suc 0)) key_heap 0 = key_realm"
  by (rule ext) (simp add: read_dict_def obj_at_def key_heap_def key_realm_def fun_eq_iff)

section \<open>Sanitization\<close>

text \<open>
  C7. \<^verbatim>\<open>sanitize_cr\<close> replaces the value of a top-level \<^verbatim>\<open>'secret'\<close> and the value of
  \<^verbatim>\<open>'saml.signing.private.key'\<close> inside the dict \<^verbatim>\<open>'attributes'\<close> by \<^verbatim>\<open>'********'\<close>, leaves
  every other entry as it is, and returns for every representation whose
  \<^verbatim>\<open>'attributes'\<close> is a dict. Whatever the run, the fields \<^verbatim>\<open>proposed\<close>, \<^verbatim>\<open>existing\<close>,
  \<^verbatim>\<open>end_state\<close> and both sides of \<^verbatim>\<open>diff\<close> hold only sanitized representations. On the
  store of objects the function changes no object that was there before the call: it
  returns a new object, and what that object stands for is the value \<open>sanitize_cr\<close>
  computes from what the argument stands for. The comparisons and the update call work on
  the representations as they are: in check mode \<^verbatim>\<open>changed\<close> compares the existing realm
  with the desired one (line 776), a real run sends the desired realm itself (line 781)
  and compares the existing realm with the realm it fetches after the update (line 785).
  In the example below a task replaces the signing key of a realm: the existing and the
  desired realm are different and their sanitized forms are the same, and both runs
  report \<^verbatim>\<open>changed\<close>.
\<close>

theorem sanitization:
  "(sanitize_cr r = Inr s \<longrightarrow>
        dom s = dom r
      \<and> (''secret'' \<in> dom r \<longrightarrow> s ''secret'' = Some redacted)
      \<and> (\<forall>a. r ''attributes'' = Some (PDict a) \<longrightarrow>
            s ''attributes'' =
              Some (PDict (if private_key \<in> dom a then a(private_key \<mapsto> redacted) else a)))
      \<and> (\<forall>k. k \<noteq> ''secret'' \<and> k \<noteq> ''attributes'' \<longrightarrow> s k = r k)
      \<and> is_sanitized s)
   \<and> (attributes_typed r \<longrightarrow> (\<exists>s. sanitize_cr r = Inr s))
   \<and> result_sanitized (result (main e m r0))
   \<and> (sanitize_cr_heap a h = Inr (a', h') \<longrightarrow>
        take (length h) h' = h \<and> length h \<le> a' \<and> a' < length h')
   \<and> (closed h \<and> obj_at h a = Some (HDict d) \<longrightarrow>
        read_result (Suc n) (sanitize_cr_heap a h) = sanitize_cr (read_dict (Suc n) h a))
   \<and> (starts e m r0 hdr (Some b) \<and> b \<noteq> Map.empty
        \<and> params_get (params m) ''state'' = PStr ''present''
        \<and> sanitize_cr (changeset_of e (params m)) = Inr p \<and> sanitize_cr b = Inr bs \<longrightarrow>
          (check_mode m \<longrightarrow>
             changed (result (main e m r0))
               = (\<not> dict_eq b (desired_realm b (changeset_of e (params m)))))
        \<and> (\<not> check_mode m \<longrightarrow>
             filter mutating (calls (main e m r0))
               = [UpdateRealm (desired_realm b (changeset_of e (params m)))
                    (params_get (params m) ''realm'')]
           \<and> (\<forall>r1 after_realm.
                 update_realm (KeycloakAPI e hdr) (desired_realm b (changeset_of e (params m)))
                   (params_get (params m) ''realm'') r0 = Inr r1
               \<and> get_realm_by_id (KeycloakAPI e hdr) (params_get (params m) ''realm'') r1
                   = Inr after_realm
               \<longrightarrow> changed (result (main e m r0)) = (\<not> dict_eq_opt b after_realm))))"
proof (intro conjI impI allI)
  show "result_sanitized (result (main e m r0))" by (rule main_sanitized_result)
next
  assume "attributes_typed r"
  then show "\<exists>s. sanitize_cr r = Inr s" by (rule sanitize_cr_typed)
next
  assume s: "sanitize_cr r = Inr s"
  show "dom s = dom r" by (rule sanitize_cr_dom [OF s])
  show "is_sanitized s" by (rule sanitize_cr_is_sanitized [OF s])
  show "s ''secret'' = Some redacted" if "''secret'' \<in> dom r"
    using sanitize_cr_secret [OF s] that by simp
  show "s ''attributes'' =
      Some (PDict (if private_key \<in> dom a then a(private_key \<mapsto> redacted) else a))"
    if "r ''attributes'' = Some (PDict a)" for a
    using that by (rule sanitize_cr_attributes [OF s])
  show "s k = r k" if "k \<noteq> ''secret'' \<and> k \<noteq> ''attributes''" for k
    using that by (simp add: sanitize_cr_other [OF s])
next
  assume f: "sanitize_cr_heap a h = Inr (a', h')"
  show "take (length h) h' = h" "length h \<le> a'" "a' < length h'"
    using sanitize_cr_heap_frame [OF f] by simp_all
next
  assume "closed h \<and> obj_at h a = Some (HDict d)"
  then show "read_result (Suc n) (sanitize_cr_heap a h) = sanitize_cr (read_dict (Suc n) h a)"
    by (simp add: sanitize_cr_heap_refines)
next
  assume u: "starts e m r0 hdr (Some b) \<and> b \<noteq> Map.empty
        \<and> params_get (params m) ''state'' = PStr ''present''
        \<and> sanitize_cr (changeset_of e (params m)) = Inr p \<and> sanitize_cr b = Inr bs"
  then have main: "main e m r0 =
     update_path (KeycloakAPI e hdr) m (params_get (params m) ''realm'') b bs
       (desired_realm b (changeset_of e (params m)))
       (initial_result\<lparr>proposed := p, existing := bs\<rparr>)
       [GetRealm (params_get (params m) ''realm'')] r0"
    by (simp add: main_update)
  from u obtain ds where ds: "sanitize_cr (desired_realm b (changeset_of e (params m))) = Inr ds"
    using sanitize_cr_desired [of b bs "changeset_of e (params m)" p] by blast
  show "changed (result (main e m r0))
          = (\<not> dict_eq b (desired_realm b (changeset_of e (params m))))" if "check_mode m"
    by (simp add: main update_path_check_mode [OF that ds] stop_def)
  show "filter mutating (calls (main e m r0))
          = [UpdateRealm (desired_realm b (changeset_of e (params m)))
               (params_get (params m) ''realm'')]" if "\<not> check_mode m"
    by (simp add: main update_path_real_calls [OF that])
  show "changed (result (main e m r0)) = (\<not> dict_eq_opt b after_realm)"
    if c: "\<not> check_mode m"
      and w: "update_realm (KeycloakAPI e hdr) (desired_realm b (changeset_of e (params m)))
                   (params_get (params m) ''realm'') r0 = Inr r1
               \<and> get_realm_by_id (KeycloakAPI e hdr) (params_get (params m) ''realm'') r1
                   = Inr after_realm" for r1 after_realm
  proof -
    from w have u1: "update_realm (KeycloakAPI e hdr) (desired_realm b (changeset_of e (params m)))
                   (params_get (params m) ''realm'') r0 = Inr r1"
      and u2: "get_realm_by_id (KeycloakAPI e hdr) (params_get (params m) ''realm'') r1
                   = Inr after_realm"
      by simp_all
    from c u1 u2 show ?thesis
      by (simp add: main update_path_def Let_def stop_def split: sum.splits option.splits)
  qed
qed

lemma key_heap_sanitized:
  "sanitize_cr_heap 0 key_heap =
     Inr (length key_heap,
          key_heap @
            [HDict [''id'' \<mapsto> HStr ''demo'', ''realm'' \<mapsto> HStr ''demo'',
                    ''attributes'' \<mapsto> HRef (Suc (length key_heap))],
             HDict [private_key \<mapsto> HStr ''********'']])"
proof -
  have o: "obj_at key_heap 0 =
      Some (HDict [''id'' \<mapsto> HStr ''demo'', ''realm'' \<mapsto> HStr ''demo'', ''attributes'' \<mapsto> HRef 1])"
    by (simp add: obj_at_def key_heap_def)
  have a: "[''id'' \<mapsto> HStr ''demo'', ''realm'' \<mapsto> HStr ''demo'', ''attributes'' \<mapsto> HRef 1]
             ''attributes'' = Some (HRef 1)"
    by simp
  have b: "obj_at key_heap 1 = Some (HDict [private_key \<mapsto> HStr ''OLD''])"
    by (simp add: obj_at_def key_heap_def)
  have k: "private_key \<in> dom [private_key \<mapsto> HStr ''OLD'']" by simp
  have sr: "secret_redacted [''id'' \<mapsto> HStr ''demo'', ''realm'' \<mapsto> HStr ''demo'', ''attributes'' \<mapsto> HRef 1]
      = [''id'' \<mapsto> HStr ''demo'', ''realm'' \<mapsto> HStr ''demo'', ''attributes'' \<mapsto> HRef 1]"
    by (simp add: secret_redacted_def)
  from sanitize_cr_heap_found [OF o a b k] show ?thesis
    by (simp only: sr fun_upd_upd)
qed

theorem sanitization_witness:
  "sanitize_cr key_realm = Inr (key_realm(''attributes'' \<mapsto> PDict [private_key \<mapsto> redacted]))
   \<and> is_sanitized (key_realm(''attributes'' \<mapsto> PDict [private_key \<mapsto> redacted]))
   \<and> closed key_heap
   \<and> take (length key_heap) (snd (projr (sanitize_cr_heap 0 key_heap))) = key_heap
   \<and> read_dict (Suc (Suc 0)) key_heap 0 = key_realm
   \<and> read_result (Suc (Suc 0)) (sanitize_cr_heap 0 key_heap)
        = Inr (key_realm(''attributes'' \<mapsto> PDict [private_key \<mapsto> redacted]))
   \<and> sanitize_cr (key_realm(''attributes'' \<mapsto> PDict [private_key \<mapsto> PStr ''NEW'']))
        = sanitize_cr key_realm
   \<and> changed (result (main example_env (key_module True) (Some key_realm))) = True
   \<and> result_sanitized (result (main example_env (key_module True) (Some key_realm)))
   \<and> filter mutating (calls (main example_env (key_module False) (Some key_realm)))
        = [UpdateRealm (key_realm(''attributes'' \<mapsto> PDict [private_key \<mapsto> PStr ''NEW'']))
             (PStr ''demo'')]
   \<and> changed (result (main example_env (key_module False) (Some key_realm))) = True"
proof -
  let ?s = "key_realm(''attributes'' \<mapsto> PDict [private_key \<mapsto> redacted])"
  let ?p = "[''realm'' \<mapsto> PStr ''demo'', ''attributes'' \<mapsto> PDict [private_key \<mapsto> redacted]]"
  let ?h' = "key_heap @
            [HDict [''id'' \<mapsto> HStr ''demo'', ''realm'' \<mapsto> HStr ''demo'',
                    ''attributes'' \<mapsto> HRef (Suc (length key_heap))],
             HDict [private_key \<mapsto> HStr ''********'']]"
  have o: "obj_at key_heap 0 =
      Some (HDict [''id'' \<mapsto> HStr ''demo'', ''realm'' \<mapsto> HStr ''demo'', ''attributes'' \<mapsto> HRef 1])"
    by (simp add: obj_at_def key_heap_def)
  have st: "params_get (params (key_module chk)) ''state'' = PStr ''present''" for chk
    by (simp add: key_mod key_get)
  note t = sanitization
    [where r = key_realm and s = ?s and e = example_env and ?r0.0 = "Some key_realm"
       and a = 0 and h = key_heap and a' = "length key_heap" and h' = ?h'
       and d = "[''id'' \<mapsto> HStr ''demo'', ''realm'' \<mapsto> HStr ''demo'', ''attributes'' \<mapsto> HRef 1]"
       and n = "Suc 0" and hdr = "()" and b = key_realm and p = ?p and bs = ?s]
  have c: "changed (result (main example_env (key_module True) (Some key_realm))) = True"
    using t [where m = "key_module True"] key_starts [of True "Some key_realm"]
      key_realm_nonempty st [of True] key_san_cs [of True] key_san_realm key_changed
    by (simp add: key_mod key_desired [of True, unfolded key_mod])
  have u: "filter mutating (calls (main example_env (key_module False) (Some key_realm)))
        = [UpdateRealm (key_realm(''attributes'' \<mapsto> PDict [private_key \<mapsto> PStr ''NEW'']))
             (PStr ''demo'')]"
    using t [where m = "key_module False"] key_starts [of False "Some key_realm"]
      key_realm_nonempty st [of False] key_san_cs [of False] key_san_realm
    by (simp add: key_mod key_get key_desired [of True, unfolded key_mod])
  have w: "changed (result (main example_env (key_module False) (Some key_realm))) = True"
    using t [where m = "key_module False"] key_starts [of False "Some key_realm"]
      key_realm_nonempty st [of False] key_san_cs [of False] key_san_realm key_changed
    by (simp add: key_mod key_get key_desired [of True, unfolded key_mod] ex_env ex_srv
        dict_eq_opt_def)
  have sd: "sanitize_cr (key_realm(''attributes'' \<mapsto> PDict [private_key \<mapsto> PStr ''NEW'']))
        = sanitize_cr key_realm"
    by (simp add: key_san_realm) (simp add: key_realm_def sanitize_cr_def py_in_def Let_def)
  have g: "is_sanitized ?s \<and> result_sanitized (result (main example_env (key_module True) (Some key_realm)))
        \<and> take (length key_heap) ?h' = key_heap
        \<and> read_result (Suc (Suc 0)) (sanitize_cr_heap 0 key_heap) = sanitize_cr (read_dict (Suc (Suc 0)) key_heap 0)"
    using t [where m = "key_module True"] key_san_realm key_heap_sanitized key_heap_closed o
    by simp
  from c u w g show ?thesis
    by (simp add: sd) (simp add: key_san_realm key_heap_closed key_heap_reads key_heap_sanitized)
qed

end
